theory Spec2Isabelle
  imports Complex_Main "HOL-Library.AList" "HOL-Library.Sublist"
begin

section \<open>Host values\<close>

text \<open>
  The client is JavaScript. A JavaScript string is modelled as a \<^typ>\<open>string\<close>, one
  \<^typ>\<open>char\<close> per code unit; \<open>length\<close>, \<open>take\<close> and \<open>drop\<close> are then
  \<open>.length\<close>, \<open>substring(0, n)\<close> and \<open>slice(n)\<close>.

  The values that \<open>JSON.parse\<close> returns are the datatype \<open>json\<close>. An object is an
  association list in insertion order; a property that is absent (\<open>undefined\<close>) is a
  lookup that returns \<open>None\<close>.
\<close>

datatype json =
    JNull
  | JBool bool
  | JNum rat
  | JString string
  | JArray "json list"
  | JObject "(string \<times> json) list"

text \<open>
  \<open>JSON.parse\<close>, \<open>JSON.stringify\<close> and the conversion of a value that is not a string
  to a string are built into the host, not part of the program: every function of the
  program that uses them takes them from a \<open>host\<close> record, and the theorems hold for every
  host. \<open>JSON_parse h s = None\<close> is the \<open>SyntaxError\<close> that the parser throws.
\<close>

record host =
  JSON_parse :: "string \<Rightarrow> json option"
  JSON_stringify :: "json \<Rightarrow> string"
  ToString :: "json \<Rightarrow> string"

datatype error = SyntaxError | TypeError | RangeError

text \<open>JavaScript truthiness of a value, and of a property that may be absent.\<close>

fun truthy :: "json \<Rightarrow> bool" where
  "truthy JNull = False"
| "truthy (JBool b) = b"
| "truthy (JNum n) = (n \<noteq> 0)"
| "truthy (JString s) = (s \<noteq> [])"
| "truthy (JArray xs) = True"
| "truthy (JObject kvs) = True"

fun truthy_opt :: "json option \<Rightarrow> bool" where
  "truthy_opt None = False"
| "truthy_opt (Some v) = truthy v"

text \<open>
  \<open>acc += v\<close> on a string accumulator: a string operand is appended as it is, the absent
  property reads \<open>undefined\<close>, every other value goes through the host's conversion.
\<close>

fun concat_value :: "host \<Rightarrow> json option \<Rightarrow> string" where
  "concat_value h None = ''undefined''"
| "concat_value h (Some (JString s)) = s"
| "concat_value h (Some v) = ToString h v"

subsection \<open>Properties of values\<close>

text \<open>
  The program reads, writes and deletes properties of whatever \<open>JSON.parse\<close> returned.
  The functions below give these operations for every kind of value, in strict mode (the
  sources are modules). They see own properties only: a key is assumed not to be the name
  of a property that the built-in prototypes provide (\<open>constructor\<close>, \<open>toString\<close>, ...).

  \<open>array_index k\<close> is the number that the key \<open>k\<close> denotes when it is an array index:
  decimal digits without a leading zero, below \<open>2^32 - 1\<close>. \<open>show_nat\<close> is the key of an
  index.
\<close>

definition is_digit :: "char \<Rightarrow> bool" where
  "is_digit c = (c \<in> set ''0123456789'')"

definition read_nat :: "string \<Rightarrow> nat" where
  "read_nat k = foldl (\<lambda>n c. 10 * n + (of_char c - 48)) 0 k"

definition array_index :: "string \<Rightarrow> nat option" where
  "array_index k =
     (if k \<noteq> [] \<and> list_all is_digit k \<and> (k = ''0'' \<or> hd k \<noteq> CHR ''0'') \<and>
         read_nat k < 2 ^ 32 - 1
      then Some (read_nat k) else None)"

fun show_nat :: "nat \<Rightarrow> string" where
  "show_nat n =
     (if n < 10 then [char_of (48 + n)]
      else show_nat (n div 10) @ [char_of (48 + n mod 10)])"

text \<open>
  \<open>v[k]\<close> for a value \<open>v\<close> that is not \<open>null\<close>: the property of an object, the element
  or the length of an array, the character or the length of a string; \<open>None\<close> is
  \<open>undefined\<close>. On \<open>null\<close> the access raises \<open>TypeError\<close>; \<open>v?.[k]\<close> gives \<open>undefined\<close>
  there, which is \<open>get_own\<close> as well.
\<close>

fun get_own :: "json \<Rightarrow> string \<Rightarrow> json option" where
  "get_own (JObject kvs) k = map_of kvs k"
| "get_own (JArray xs) k =
     (case array_index k of
        Some n \<Rightarrow> if n < length xs then Some (xs ! n) else None
      | None \<Rightarrow> if k = ''length'' then Some (JNum (of_nat (length xs))) else None)"
| "get_own (JString t) k =
     (case array_index k of
        Some n \<Rightarrow> if n < length t then Some (JString [t ! n]) else None
      | None \<Rightarrow> if k = ''length'' then Some (JNum (of_nat (length t))) else None)"
| "get_own v k = None"

definition get_member :: "json \<Rightarrow> string \<Rightarrow> error + json option" where
  "get_member v k = (if v = JNull then Inl TypeError else Inr (get_own v k))"

text \<open>
  The keys of an object come in the order of the language: array indices first, in
  ascending order, then the other keys in the order of their creation. \<open>js_put\<close> sets a
  property and keeps this order (the values that \<open>JSON.parse\<close> returns have it).
\<close>

definition key_before :: "string \<Rightarrow> string \<Rightarrow> bool" where
  "key_before k k' =
     (case array_index k of
        None \<Rightarrow> False
      | Some n \<Rightarrow> (case array_index k' of None \<Rightarrow> True | Some n' \<Rightarrow> n < n'))"

fun insert_key :: "string \<Rightarrow> json \<Rightarrow> (string \<times> json) list \<Rightarrow> (string \<times> json) list" where
  "insert_key k v [] = [(k, v)]"
| "insert_key k v ((k', v') # kvs) =
     (if key_before k k' then (k, v) # (k', v') # kvs else (k', v') # insert_key k v kvs)"

definition js_put :: "string \<Rightarrow> json \<Rightarrow> (string \<times> json) list \<Rightarrow> (string \<times> json) list" where
  "js_put k v kvs =
     (if map_of kvs k \<noteq> None then AList.update k v kvs else insert_key k v kvs)"

text \<open>
  \<open>{ ...v }\<close>: the own enumerable properties of a value, none for \<open>undefined\<close>, \<open>null\<close>,
  a boolean or a number.
\<close>

fun spread :: "json option \<Rightarrow> (string \<times> json) list" where
  "spread (Some (JObject kvs)) = kvs"
| "spread (Some (JArray xs)) = zip (map show_nat [0..<length xs]) xs"
| "spread (Some (JString t)) = zip (map show_nat [0..<length t]) (map (\<lambda>c. JString [c]) t)"
| "spread other = []"

text \<open>
  \<open>v[k] = x\<close> for an object \<open>x\<close>, and \<open>delete v[k]\<close>, with the value as
  \<open>JSON.stringify\<close> sees it afterwards: a hole of an array is written as \<open>null\<close>, a
  property of an array that is not an element is not written. Assigning to a property of
  \<open>null\<close> or of a primitive value raises \<open>TypeError\<close>; an object is not a length of an
  array (\<open>RangeError\<close>); the length of an array and the properties of a string cannot be
  deleted.
\<close>

fun put_member :: "json \<Rightarrow> string \<Rightarrow> (string \<times> json) list \<Rightarrow> error + json" where
  "put_member (JObject kvs) k x = Inr (JObject (js_put k (JObject x) kvs))"
| "put_member (JArray xs) k x =
     (case array_index k of
        Some n \<Rightarrow>
          Inr (JArray (if n < length xs then xs[n := JObject x]
                       else xs @ replicate (n - length xs) JNull @ [JObject x]))
      | None \<Rightarrow> if k = ''length'' then Inl RangeError else Inr (JArray xs))"
| "put_member v k x = Inl TypeError"

fun delete_member :: "json \<Rightarrow> string \<Rightarrow> error + json" where
  "delete_member (JObject kvs) k = Inr (JObject (AList.delete k kvs))"
| "delete_member (JArray xs) k =
     (case array_index k of
        Some n \<Rightarrow> Inr (JArray (if n < length xs then xs[n := JNull] else xs))
      | None \<Rightarrow> if k = ''length'' then Inl TypeError else Inr (JArray xs))"
| "delete_member (JString t) k =
     (if get_own (JString t) k \<noteq> None then Inl TypeError else Inr (JString t))"
| "delete_member JNull k = Inl TypeError"
| "delete_member v k = Inr v"

section \<open>Messages\<close>

text \<open>
  A message of the buffer (\<open>messages\<close> in \<open>App.jsx\<close>). The program builds message objects
  with different sets of properties; a property that an object does not have is \<open>None\<close>.
  \<open>fullContent\<close> is the hidden property \<open>_fullContent\<close>.
\<close>

record message =
  role :: string
  content :: string
  fullContent :: "string option"
  images :: "string list option"
  isStreaming :: "bool option"
  isSimulating :: "bool option"
  status :: "json option"

text \<open>
  A message as \<open>GET /conversations/{id}/messages\<close> delivers it. \<open>m_content\<close> and
  \<open>image_data\<close> may be \<open>null\<close> (\<open>None\<close>). \<open>created_at\<close> holds
  \<open>new Date(m.created_at).getTime()\<close>: the milliseconds of the time stamp, or \<open>None\<close>
  for the \<open>NaN\<close> of a date that does not parse.
\<close>

record api_message =
  m_role :: string
  m_content :: "string option"
  image_data :: "string option"
  created_at :: "int option"

subsection \<open>parseMessagesData\<close>

definition TYPING_SPEED :: real where
  "TYPING_SPEED = 0.25"

definition jpeg_prefix :: string where
  "jpeg_prefix = ''data:image/jpeg;base64,''"

text \<open>Lines 354--366: the images of a loaded message.\<close>

definition parse_images :: "host \<Rightarrow> string option \<Rightarrow> string list" where
  "parse_images h d =
     (case d of
        None \<Rightarrow> []
      | Some raw \<Rightarrow>
          if raw = [] then []
          else (case JSON_parse h raw of
                  None \<Rightarrow> [jpeg_prefix @ raw]
                | Some (JArray xs) \<Rightarrow> map (\<lambda>b64. jpeg_prefix @ concat_value h (Some b64)) xs
                | Some other \<Rightarrow> [jpeg_prefix @ raw]))"

text \<open>
  The callback of \<open>data.map\<close> (lines 353--397) for the message \<open>m\<close> at index \<open>idx\<close> of a
  list of \<open>n\<close> messages, read at time \<open>now\<close>. With an invalid date \<open>elapsed\<close> and
  \<open>expectedVisibleLength\<close> are \<open>NaN\<close>, and the comparison with the length is false.
  Time stamps are integers of milliseconds, so the product with \<open>0.25\<close> is exact.
\<close>

definition parse_message :: "host \<Rightarrow> int \<Rightarrow> nat \<Rightarrow> nat \<Rightarrow> api_message \<Rightarrow> message" where
  "parse_message h now n idx m =
     (let imgs = parse_images h (image_data m);
          elapsed = map_option (\<lambda>createdAt. now - createdAt) (created_at m);
          full = (case m_content m of None \<Rightarrow> [] | Some c \<Rightarrow> c);
          isLastMessage = (int idx = int n - 1);
          shouldSimulate = (isLastMessage \<and> m_role m = ''assistant'' \<and> length full > 0);
          expectedVisibleLength = map_option (\<lambda>e. \<lfloor>real_of_int e * TYPING_SPEED\<rfloor>) elapsed;
          final = \<lparr> role = m_role m, content = full, fullContent = None,
                    images = Some imgs,
                    isStreaming = Some (m_role m = ''assistant'' \<and> full = []),
                    isSimulating = None, status = None \<rparr>
      in if shouldSimulate
         then (case expectedVisibleLength of
                 None \<Rightarrow> final
               | Some v \<Rightarrow>
                   if v < int (length full)
                   then \<lparr> role = m_role m, content = take (nat (max 0 v)) full,
                          fullContent = Some full, images = Some imgs,
                          isStreaming = Some True, isSimulating = Some True,
                          status = None \<rparr>
                   else final)
         else final)"

definition parseMessagesData :: "host \<Rightarrow> int \<Rightarrow> api_message list \<Rightarrow> message list" where
  "parseMessagesData h now data =
     map (\<lambda>(idx, m). parse_message h now (length data) idx m) (enumerate 0 data)"

text \<open>
  The milliseconds that pass between the creation of a message and its load, the visible
  length the simulator expects after them, and the full text of a loaded message.
\<close>

definition visibleLength :: "int \<Rightarrow> int \<Rightarrow> int" where
  "visibleLength now createdAt = \<lfloor>real_of_int (now - createdAt) * TYPING_SPEED\<rfloor>"

definition full_text :: "api_message \<Rightarrow> string" where
  "full_text m = (case m_content m of None \<Rightarrow> [] | Some c \<Rightarrow> c)"

text \<open>A loaded list whose trailing message is an assistant message with text.\<close>

definition trailing_answer :: "api_message list \<Rightarrow> bool" where
  "trailing_answer data =
     (data \<noteq> [] \<and> m_role (last data) = ''assistant'' \<and> full_text (last data) \<noteq> [])"

text \<open>The trailing message of the buffer that a load produces.\<close>

definition loaded_trailing :: "host \<Rightarrow> int \<Rightarrow> api_message list \<Rightarrow> message" where
  "loaded_trailing h now data = last (parseMessagesData h now data)"

section \<open>Application state\<close>

text \<open>
  A conversation of the side bar. The backend delivers identifier, title and time
  stamps; \<open>isPinned\<close> and \<open>isArchived\<close> are added by the client and are absent
  (\<open>None\<close>) on the entry that \<open>sendMessage\<close> creates for a new session.
\<close>

record conversation =
  conv_id :: string
  title :: "string option"
  conv_created_at :: string
  updated_at :: "string option"
  isPinned :: "bool option"
  isArchived :: "bool option"

text \<open>
  The state of the \<open>App\<close> component that the operations below read and write, with the
  browser's \<open>localStorage\<close> (keys in insertion order), the lines written by
  \<open>console.error\<close>, and the delays (in ms) of the pending timers that hide the pin
  notice. Operations run one at a time: an operation is modelled from its call to the
  settlement of its promise, with no other operation in between.
\<close>

record app_state =
  conversations :: "conversation list"
  currentConversation :: "string option"
  messages :: "message list"
  isLoading :: bool
  isInitializing :: bool
  showPinLimitToast :: bool
  toastTimers :: "nat list"
  isCreatingSessionRef :: bool
  isSendingMessageRef :: bool
  localStorage :: "(string \<times> string) list"
  console :: "string list"

text \<open>The answer of a request: the promise rejects, or resolves with a value.\<close>

datatype 'a fetched = Rejected | Resolved 'a

definition console_error :: "string \<Rightarrow> app_state \<Rightarrow> app_state" where
  "console_error line s = s\<lparr>console := console s @ [line]\<rparr>"

definition getItem :: "string \<Rightarrow> app_state \<Rightarrow> string option" where
  "getItem k s = map_of (localStorage s) k"

definition setItem :: "string \<Rightarrow> string \<Rightarrow> app_state \<Rightarrow> app_state" where
  "setItem k v s = s\<lparr>localStorage := AList.update k v (localStorage s)\<rparr>"

definition removeItem :: "string \<Rightarrow> app_state \<Rightarrow> app_state" where
  "removeItem k s = s\<lparr>localStorage := AList.delete k (localStorage s)\<rparr>"

subsection \<open>Pin and archive metadata\<close>

text \<open>
  \<open>JSON.parse(localStorage.getItem('chat_metadata') || '{}')\<close>: the value that the
  stored text denotes, whatever its kind, or the \<open>SyntaxError\<close> of a text that does not
  parse.
\<close>

definition read_metadata :: "host \<Rightarrow> app_state \<Rightarrow> error + json" where
  "read_metadata h s =
     (let text = (case getItem ''chat_metadata'' s of
                    None \<Rightarrow> ''{}''
                  | Some t \<Rightarrow> if t = [] then ''{}'' else t)
      in case JSON_parse h text of
           None \<Rightarrow> Inl SyntaxError
         | Some v \<Rightarrow> Inr v)"

text \<open>
  \<open>{ ...metadata[id], isPinned: conv.isPinned, isArchived: conv.isArchived }\<close> as
  \<open>JSON.stringify\<close> sees it: the properties of the old entry, then the two flags; a flag
  that is \<open>undefined\<close> is left out of the text.
\<close>

fun set_flag :: "string \<Rightarrow> bool option \<Rightarrow> (string \<times> json) list \<Rightarrow> (string \<times> json) list" where
  "set_flag k None obj = AList.delete k obj"
| "set_flag k (Some b) obj = js_put k (JBool b) obj"

definition metadata_entry :: "json option \<Rightarrow> conversation \<Rightarrow> (string \<times> json) list" where
  "metadata_entry old conv =
     set_flag ''isArchived'' (isArchived conv)
       (set_flag ''isPinned'' (isPinned conv) (spread old))"

definition find_conv :: "string \<Rightarrow> conversation list \<Rightarrow> conversation option" where
  "find_conv i cs = find (\<lambda>c. conv_id c = i) cs"

text \<open>
  Lines 483--486 and 509--512: write the flags of conversation \<open>i\<close> to the storage. The
  right-hand side of the assignment is evaluated first: the old entry is read, then the
  flags of \<open>conv\<close>, which is \<open>undefined\<close> when the conversation is not in the list.
\<close>

definition persist_metadata ::
  "host \<Rightarrow> string \<Rightarrow> conversation list \<Rightarrow> app_state \<Rightarrow> error + app_state" where
  "persist_metadata h i updated s =
     (case read_metadata h s of
        Inl e \<Rightarrow> Inl e
      | Inr metadata \<Rightarrow>
          (case get_member metadata i of
             Inl e \<Rightarrow> Inl e
           | Inr old \<Rightarrow>
               (case find_conv i updated of
                  None \<Rightarrow> Inl TypeError
                | Some conv \<Rightarrow>
                    (case put_member metadata i (metadata_entry old conv) of
                       Inl e \<Rightarrow> Inl e
                     | Inr written \<Rightarrow>
                         Inr (setItem ''chat_metadata'' (JSON_stringify h written) s)))))"

subsection \<open>togglePin and toggleArchive\<close>

definition pinned_count :: "conversation list \<Rightarrow> nat" where
  "pinned_count cs = length (filter (\<lambda>c. isPinned c = Some True) cs)"

definition toggle_pinned :: "string \<Rightarrow> conversation \<Rightarrow> conversation" where
  "toggle_pinned i c =
     (if conv_id c = i
      then (let newPinned = (isPinned c \<noteq> Some True)
            in c\<lparr>isPinned := Some newPinned,
                 isArchived := (if newPinned then Some False else isArchived c)\<rparr>)
      else c)"

definition toggle_archived :: "string \<Rightarrow> conversation \<Rightarrow> conversation" where
  "toggle_archived i c =
     (if conv_id c = i
      then (let newArchived = (isArchived c \<noteq> Some True)
            in c\<lparr>isArchived := Some newArchived,
                 isPinned := (if newArchived then Some False else isPinned c)\<rparr>)
      else c)"

text \<open>
  \<open>togglePin\<close> (lines 463--489). The updater runs outside any \<open>try\<close>: an exception
  raised while the metadata are written leaves the updater, and the result is \<open>Inl\<close>.
  A rejected pin shows the notice and starts a timer of 3000 ms (line 471);
  \<open>toast_timer_fires\<close> is the callback of the oldest pending timer, which hides the
  notice.
\<close>

definition togglePin :: "host \<Rightarrow> string \<Rightarrow> app_state \<Rightarrow> error + app_state" where
  "togglePin h i s =
     (let prev = conversations s;
          isCurrentlyPinned = (case find_conv i prev of
                                 None \<Rightarrow> False
                               | Some c \<Rightarrow> isPinned c = Some True);
          currentPinnedCount = pinned_count prev
      in if \<not> isCurrentlyPinned \<and> currentPinnedCount \<ge> 5
         then Inr (s\<lparr>showPinLimitToast := True, toastTimers := toastTimers s @ [3000]\<rparr>)
         else (let updated = map (toggle_pinned i) prev
               in case persist_metadata h i updated s of
                    Inl e \<Rightarrow> Inl e
                  | Inr s' \<Rightarrow> Inr (s'\<lparr>conversations := updated\<rparr>)))"

definition toast_timer_fires :: "app_state \<Rightarrow> app_state" where
  "toast_timer_fires s =
     (case toastTimers s of
        [] \<Rightarrow> s
      | delay # pending \<Rightarrow> s\<lparr>showPinLimitToast := False, toastTimers := pending\<rparr>)"

text \<open>\<open>toggleArchive\<close> (lines 491--515).\<close>

definition toggleArchive :: "host \<Rightarrow> string \<Rightarrow> app_state \<Rightarrow> error + app_state" where
  "toggleArchive h i s =
     (let prev = conversations s;
          updated = map (toggle_archived i) prev;
          isArchiving = (case find_conv i prev of
                           None \<Rightarrow> True
                         | Some c \<Rightarrow> isArchived c \<noteq> Some True);
          s1 = (if currentConversation s = Some i \<and> isArchiving
                then s\<lparr>currentConversation := None, messages := []\<rparr>
                else s)
      in case persist_metadata h i updated s1 of
           Inl e \<Rightarrow> Inl e
         | Inr s' \<Rightarrow> Inr (s'\<lparr>conversations := updated\<rparr>))"

subsection \<open>deleteConversation\<close>

text \<open>
  \<open>deleteConversation\<close> (lines 407--435); \<open>answer\<close> is the outcome of the \<open>DELETE\<close>
  request, which resolves for every status code. Everything runs inside one \<open>try\<close>: an
  exception ends the operation where it is raised and is logged.
\<close>

definition expand_key_of :: "string \<Rightarrow> string \<Rightarrow> bool" where
  "expand_key_of i key = prefix (''expand_'' @ i) key"

text \<open>Lines 410--417: the list without the conversation, and the selection cleared.\<close>

definition remove_from_view :: "string \<Rightarrow> app_state \<Rightarrow> app_state" where
  "remove_from_view i s =
     (let remaining = filter (\<lambda>c. conv_id c \<noteq> i) (conversations s);
          s1 = s\<lparr>conversations := remaining\<rparr>
      in if currentConversation s = Some i
         then removeItem ''lastConversationId''
                (s1\<lparr>currentConversation := None, messages := []\<rparr>)
         else s1)"

text \<open>Lines 420--431: the metadata entry and the expanded flags.\<close>

definition cleanup_storage :: "host \<Rightarrow> string \<Rightarrow> app_state \<Rightarrow> error + app_state" where
  "cleanup_storage h i s =
     (case read_metadata h s of
        Inl e \<Rightarrow> Inl e
      | Inr metadata \<Rightarrow>
          (case get_member metadata i of
             Inl e \<Rightarrow> Inl e
           | Inr entry \<Rightarrow>
               (case (if truthy_opt entry
                      then (case delete_member metadata i of
                              Inl e \<Rightarrow> Inl e
                            | Inr written \<Rightarrow>
                                Inr (setItem ''chat_metadata'' (JSON_stringify h written) s))
                      else Inr s) of
                  Inl e \<Rightarrow> Inl e
                | Inr s3 \<Rightarrow>
                    Inr (s3\<lparr>localStorage :=
                              filter (\<lambda>(key, v). \<not> expand_key_of i key) (localStorage s3)\<rparr>))))"

definition deleteConversation :: "host \<Rightarrow> unit fetched \<Rightarrow> string \<Rightarrow> app_state \<Rightarrow> app_state" where
  "deleteConversation h answer i s =
     (case answer of
        Rejected \<Rightarrow> console_error ''Failed to delete conversation:'' s
      | Resolved u \<Rightarrow>
          (let s2 = remove_from_view i s
           in case cleanup_storage h i s2 of
                Inl e \<Rightarrow> console_error ''Failed to delete conversation:'' s2
              | Inr s' \<Rightarrow> s'))"

subsection \<open>Loading on mount\<close>

text \<open>The initial value of \<open>userProfile\<close> (lines 35--55), with the effects of computing it.\<close>

definition guest_profile :: "string \<Rightarrow> json" where
  "guest_profile defaultAvatar =
     JObject [(''name'', JString ''Guest''), (''email'', JString ''guest@example.com''),
              (''avatar'', JString defaultAvatar)]"

definition migrate_avatar ::
  "host \<Rightarrow> string \<Rightarrow> (string \<times> json) list \<Rightarrow> app_state \<Rightarrow> json \<times> app_state" where
  "migrate_avatar h defaultAvatar kvs s =
     (let profile = JObject (AList.update ''avatar'' (JString defaultAvatar) kvs)
      in (profile, setItem ''user_profile'' (JSON_stringify h profile) s))"

definition init_userProfile :: "host \<Rightarrow> string \<Rightarrow> app_state \<Rightarrow> json \<times> app_state" where
  "init_userProfile h defaultAvatar s =
     (let guest = guest_profile defaultAvatar;
          failed = (guest, console_error ''Failed to parse user_profile'' s)
      in case getItem ''user_profile'' s of
           None \<Rightarrow> (guest, s)
         | Some saved \<Rightarrow>
             if saved = [] then (guest, s)
             else (case JSON_parse h saved of
                     None \<Rightarrow> failed
                   | Some (JObject kvs) \<Rightarrow>
                       (case map_of kvs ''avatar'' of
                          Some (JString a) \<Rightarrow>
                            if a = ''/hnam.jpeg'' \<or> a = ''/pochi.jpeg'' \<or> sublist ''hnam'' a
                            then migrate_avatar h defaultAvatar kvs s
                            else (JObject kvs, s)
                        | Some (JArray xs) \<Rightarrow>
                            if JString ''hnam'' \<in> set xs
                            then migrate_avatar h defaultAvatar kvs s
                            else (JObject kvs, s)
                        | other \<Rightarrow> failed)
                   | Some other \<Rightarrow> failed))"

text \<open>A conversation as \<open>GET /conversations\<close> delivers it.\<close>

record api_conversation =
  a_id :: string
  a_title :: "string option"
  a_created_at :: string
  a_updated_at :: "string option"

text \<open>
  \<open>persistedMetadata[conv.id]?.isPinned || false\<close>: the flag of the stored entry when
  it is truthy (a truthy flag that is not a boolean is taken as \<open>true\<close>), \<open>false\<close>
  otherwise. The callback raises \<open>TypeError\<close> when the metadata are \<open>null\<close>; it is
  not called for an empty list.
\<close>

fun stored_flag :: "string \<Rightarrow> json option \<Rightarrow> bool" where
  "stored_flag k None = False"
| "stored_flag k (Some entry) = truthy_opt (get_own entry k)"

definition merge_metadata :: "json \<Rightarrow> api_conversation \<Rightarrow> conversation" where
  "merge_metadata persistedMetadata conv =
     \<lparr> conv_id = a_id conv, title = a_title conv, conv_created_at = a_created_at conv,
       updated_at = a_updated_at conv,
       isPinned = Some (stored_flag ''isPinned'' (get_own persistedMetadata (a_id conv))),
       isArchived = Some (stored_flag ''isArchived'' (get_own persistedMetadata (a_id conv))) \<rparr>"

text \<open>\<open>loadMessagesSync\<close> (lines 338--346).\<close>

definition loadMessagesSync ::
  "host \<Rightarrow> int \<Rightarrow> api_message list fetched \<Rightarrow> app_state \<Rightarrow> app_state" where
  "loadMessagesSync h now answer s =
     (case answer of
        Rejected \<Rightarrow> console_error ''Failed to load messages:'' s
      | Resolved data \<Rightarrow> s\<lparr>messages := parseMessagesData h now data\<rparr>)"

text \<open>
  \<open>initConversations\<close> (lines 203--236): \<open>listing\<close> answers \<open>GET /conversations\<close>,
  \<open>loaded\<close> answers the request for the messages of the saved conversation.
\<close>

definition initConversations ::
  "host \<Rightarrow> int \<Rightarrow> api_conversation list fetched \<Rightarrow> api_message list fetched \<Rightarrow>
   app_state \<Rightarrow> app_state" where
  "initConversations h now listing loaded s =
     (let failed = (\<lambda>t. console_error ''Failed to fetch conversations:'' t);
          s' = (case listing of
                  Rejected \<Rightarrow> failed s
                | Resolved data \<Rightarrow>
                    (case read_metadata h s of
                       Inl e \<Rightarrow> failed s
                     | Inr persistedMetadata \<Rightarrow>
                         if persistedMetadata = JNull \<and> data \<noteq> [] then failed s
                         else
                         (let s1 = s\<lparr>conversations := map (merge_metadata persistedMetadata) data\<rparr>
                          in case getItem ''lastConversationId'' s1 of
                               None \<Rightarrow> s1
                             | Some savedId \<Rightarrow>
                                 if savedId = [] then s1
                                 else if find (\<lambda>c. a_id c = savedId) data \<noteq> None
                                 then loadMessagesSync h now loaded s1
                                 else (removeItem ''lastConversationId'' s1)
                                        \<lparr>currentConversation := None, messages := []\<rparr>)))
      in s'\<lparr>isInitializing := False\<rparr>)"

section \<open>sendMessage\<close>

subsection \<open>Strings\<close>

text \<open>
  White space as \<open>trim\<close> sees it among the code units below 256, \<open>trim\<close> itself, and
  \<open>split\<close> at a separator, which returns one more piece than there are separators.
\<close>

definition is_space :: "char \<Rightarrow> bool" where
  "is_space c = (c \<in> set [CHR 0x09, CHR 0x0A, CHR 0x0B, CHR 0x0C, CHR 0x0D, CHR 0x20, CHR 0xA0])"

definition trim :: "string \<Rightarrow> string" where
  "trim t = rev (dropWhile is_space (rev (dropWhile is_space t)))"

fun split_on :: "char \<Rightarrow> string \<Rightarrow> string list" where
  "split_on sep [] = [[]]"
| "split_on sep (c # cs) =
     (if c = sep then [] # split_on sep cs
      else (case split_on sep cs of
              [] \<Rightarrow> [[c]]
            | piece # pieces \<Rightarrow> (c # piece) # pieces))"

subsection \<open>The messages a send builds\<close>

record uploaded_image =
  preview :: string
  file_name :: string

definition user_message :: "string \<Rightarrow> string list \<Rightarrow> message" where
  "user_message userMessage imagePreviews =
     \<lparr> role = ''user'', content = userMessage, fullContent = None,
       images = Some imagePreviews, isStreaming = None, isSimulating = None, status = None \<rparr>"

definition placeholder :: message where
  "placeholder =
     \<lparr> role = ''assistant'', content = [], fullContent = None, images = None,
       isStreaming = Some True, isSimulating = None, status = None \<rparr>"

text \<open>
  The text of the error message, a Vietnamese sentence that apologises for an error.
  Its letters outside ASCII are code units above 255; they are written here as the bytes
  of their UTF-8 encoding. No property below depends on this text.
\<close>

definition apology :: string where
  "apology = ''Xin l'' @ [CHR 0xE1, CHR 0xBB, CHR 0x97] @ ''i, '' @ [CHR 0xC4, CHR 0x91, CHR 0xC3, CHR 0xA3]
     @ '' c'' @ [CHR 0xC3, CHR 0xB3] @ '' l'' @ [CHR 0xE1, CHR 0xBB, CHR 0x97] @ ''i x''
     @ [CHR 0xE1, CHR 0xBA, CHR 0xA3] @ ''y ra.''"

definition error_message :: message where
  "error_message =
     \<lparr> role = ''assistant'', content = apology, fullContent = None, images = None,
       isStreaming = None, isSimulating = None, status = None \<rparr>"

text \<open>An update of the last message of the buffer, guarded by \<open>length > 0\<close>.\<close>

definition update_last :: "(message \<Rightarrow> message) \<Rightarrow> message list \<Rightarrow> message list" where
  "update_last f ms = (if ms = [] then [] else butlast ms @ [f (last ms)])"

subsection \<open>Decoding the stream\<close>

text \<open>
  The local state of the read loop: the accumulated text, the counter of the batch, and
  the message buffer that the updaters of the loop are applied to.
\<close>

record decoder =
  assistantMessage :: string
  batchTokens :: nat
  buffer :: "message list"

definition BATCH_SIZE :: nat where
  "BATCH_SIZE = 8"

text \<open>
  Lines 576--596 for the payload \<open>data\<close> of one record. \<open>None\<close> is the \<open>break\<close> of the
  \<open>for\<close> loop. A text that does not parse is kept as a string (the fallback of the
  \<open>catch\<close>). \<open>typeof parsed === 'object'\<close> holds for objects, arrays and \<open>null\<close>; an
  array has no property \<open>type\<close>.
\<close>

definition append_token :: "string \<Rightarrow> decoder \<Rightarrow> decoder" where
  "append_token t st =
     st\<lparr>assistantMessage := assistantMessage st @ t, batchTokens := Suc (batchTokens st)\<rparr>"

definition decode_payload :: "host \<Rightarrow> string \<Rightarrow> decoder \<Rightarrow> decoder option" where
  "decode_payload h data st =
     (let parsed = (case JSON_parse h data of None \<Rightarrow> JString data | Some v \<Rightarrow> v)
      in case parsed of
           JObject kvs \<Rightarrow>
             if truthy_opt (map_of kvs ''type'')
             then (if map_of kvs ''type'' = Some (JString ''token'')
                   then Some (append_token (concat_value h (map_of kvs ''content'')) st)
                   else if map_of kvs ''type'' = Some (JString ''status'')
                   then Some (st\<lparr>buffer :=
                                  update_last (\<lambda>m. m\<lparr>status := map_of kvs ''status''\<rparr>)
                                    (buffer st)\<rparr>)
                   else if map_of kvs ''type'' = Some (JString ''done'')
                   then None
                   else Some st)
             else Some st
         | JString t \<Rightarrow> Some (append_token t st)
         | other \<Rightarrow> Some st)"

text \<open>Lines 599--611: the accumulated text goes to the last message of the buffer.\<close>

definition flush :: "decoder \<Rightarrow> decoder" where
  "flush st =
     st\<lparr>buffer := update_last (\<lambda>m. m\<lparr>content := assistantMessage st\<rparr>) (buffer st),
        batchTokens := 0\<rparr>"

text \<open>
  The \<open>for\<close> loop over the lines of one chunk (lines 570--613), from the line at index
  \<open>i\<close> on; \<open>rest = []\<close> is \<open>i === lines.length - 1\<close>. Both sentinels leave this loop
  only, before the flush.
\<close>

fun process_lines :: "host \<Rightarrow> string list \<Rightarrow> decoder \<Rightarrow> decoder" where
  "process_lines h [] st = st"
| "process_lines h (line # rest) st =
     (if prefix ''data: '' line
      then (let data = drop 6 line
            in if data = ''[DONE]'' then st
               else (case decode_payload h data st of
                       None \<Rightarrow> st
                     | Some st1 \<Rightarrow>
                         process_lines h rest
                           (if batchTokens st1 \<ge> BATCH_SIZE \<or> rest = [] then flush st1
                            else st1)))
      else process_lines h rest st)"

definition chunk_lines :: "string \<Rightarrow> string list" where
  "chunk_lines chunk = filter (\<lambda>l. length (trim l) > 0) (split_on CHR 0x0A chunk)"

text \<open>
  The \<open>while (true)\<close> loop (lines 561--614) over the chunks that \<open>reader.read()\<close>
  delivers before the stream ends; a chunk is given as the text that the decoder makes of
  it.
\<close>

fun read_loop :: "host \<Rightarrow> string list \<Rightarrow> decoder \<Rightarrow> decoder" where
  "read_loop h [] st = st"
| "read_loop h (chunk # chunks) st =
     read_loop h chunks (process_lines h (chunk_lines chunk) (st\<lparr>batchTokens := 0\<rparr>))"

subsection \<open>The send\<close>

text \<open>
  The answer to \<open>POST /chat\<close>: the header \<open>X-Session-Id\<close> and the body, which is absent
  (\<open>null\<close>) or a finite sequence of chunks after which the stream either closes or a read
  fails. A stream that never ends does not let the send settle and is not an answer of
  this type.
\<close>

datatype stream_end = Closed | Broken

record body_stream =
  chunks :: "string list"
  ending :: stream_end

record response =
  session_header :: "string option"
  body :: "body_stream option"

definition finish_streaming :: "message list \<Rightarrow> message list" where
  "finish_streaming ms = update_last (\<lambda>m. m\<lparr>isStreaming := Some False, status := Some JNull\<rparr>) ms"

text \<open>The \<open>catch\<close> branch (lines 626--636).\<close>

definition fail_send :: "app_state \<Rightarrow> app_state" where
  "fail_send s =
     (let t = console_error ''Failed to send message:'' s;
          ms = messages t;
          newMessages = (if ms \<noteq> [] \<and> role (last ms) = ''assistant''
                         then finish_streaming ms else ms)
      in t\<lparr>messages := newMessages @ [error_message]\<rparr>)"

text \<open>Lines 544--552: the session that the server created for a send without one.\<close>

definition new_session :: "string \<Rightarrow> string \<Rightarrow> string \<Rightarrow> app_state \<Rightarrow> app_state" where
  "new_session sessionId userMessage now_iso s =
     (let s1 = setItem ''lastConversationId'' sessionId
                 (s\<lparr>isCreatingSessionRef := True, currentConversation := Some sessionId\<rparr>);
          prev = conversations s1
      in s1\<lparr>conversations :=
              (if find_conv sessionId prev \<noteq> None then prev
               else \<lparr> conv_id = sessionId, title = Some (take 50 userMessage),
                      conv_created_at = now_iso, updated_at = None,
                      isPinned = None, isArchived = None \<rparr> # prev)\<rparr>)"

text \<open>Lines 518--530: the flag, the optimistic user message and the loading state.\<close>

definition begin_send :: "string \<Rightarrow> uploaded_image list \<Rightarrow> app_state \<Rightarrow> app_state" where
  "begin_send text uploadedImages s =
     (let userMessage = trim text;
          imagePreviews = map preview uploadedImages
      in s\<lparr>isSendingMessageRef := True,
           messages := messages s @ [user_message userMessage imagePreviews],
           isLoading := True\<rparr>)"

text \<open>
  Lines 541--552 on the state \<open>s1\<close> that the send has reached; \<open>noConversation\<close> is
  \<open>!currentConversation\<close>, read from the closure, that is, from the state at the call.
\<close>

definition no_conversation :: "app_state \<Rightarrow> bool" where
  "no_conversation s = (case currentConversation s of None \<Rightarrow> True | Some c \<Rightarrow> c = [])"

definition accept_session ::
  "string \<Rightarrow> response \<Rightarrow> string \<Rightarrow> bool \<Rightarrow> app_state \<Rightarrow> app_state" where
  "accept_session now_iso res userMessage noConversation s1 =
     (case session_header res of
        None \<Rightarrow> s1
      | Some sessionId \<Rightarrow>
          if sessionId \<noteq> [] \<and> noConversation
          then new_session sessionId userMessage now_iso s1
          else s1)"

text \<open>Line 559: the placeholder joins the buffer.\<close>

definition append_placeholder :: "app_state \<Rightarrow> app_state" where
  "append_placeholder s = s\<lparr>messages := messages s @ [placeholder]\<rparr>"

text \<open>
  Lines 557--614: the state of the send when the first \<open>n\<close> chunks of the body have been
  read and processed; \<open>n = 0\<close> is the state right after the placeholder was appended.
\<close>

definition stream_progress :: "host \<Rightarrow> body_stream \<Rightarrow> nat \<Rightarrow> app_state \<Rightarrow> app_state" where
  "stream_progress h b n s =
     (let opened = append_placeholder s;
          st = read_loop h (take n (chunks b))
                 \<lparr> assistantMessage = [], batchTokens = 0, buffer = messages opened \<rparr>
      in opened\<lparr>messages := buffer st\<rparr>)"

text \<open>Lines 555--624: all chunks are read, then the stream ends.\<close>

definition stream_response :: "host \<Rightarrow> body_stream \<Rightarrow> app_state \<Rightarrow> app_state" where
  "stream_response h b s =
     (let s1 = stream_progress h b (length (chunks b)) s
      in case ending b of
           Closed \<Rightarrow> s1\<lparr>messages := finish_streaming (messages s1)\<rparr>
         | Broken \<Rightarrow> fail_send s1)"

text \<open>
  \<open>sendMessage\<close> (lines 517--642). \<open>answer\<close> is what \<open>fetch\<close> gives for the request
  (the request itself has no effect on the client), \<open>now_iso\<close> the time of the client.
\<close>

definition sendMessage ::
  "host \<Rightarrow> string \<Rightarrow> response fetched \<Rightarrow> string \<Rightarrow> uploaded_image list \<Rightarrow>
   app_state \<Rightarrow> app_state" where
  "sendMessage h now_iso answer text uploadedImages s =
     (let s1 = begin_send text uploadedImages s;
          s2 = (case answer of
                  Rejected \<Rightarrow> fail_send s1
                | Resolved res \<Rightarrow>
                    (let s3 = accept_session now_iso res (trim text) (no_conversation s) s1
                     in case body res of
                          None \<Rightarrow> fail_send s3
                        | Some b \<Rightarrow> stream_response h b s3))
      in s2\<lparr>isLoading := False, isSendingMessageRef := False\<rparr>)"

text \<open>
  At most one message of a buffer is streaming, and only the last one: no message before
  the last has \<open>isStreaming = true\<close>. \<open>none_streaming\<close>: no message at all has it.
\<close>

definition streaming_only_last :: "message list \<Rightarrow> bool" where
  "streaming_only_last ms = list_all (\<lambda>m. isStreaming m \<noteq> Some True) (butlast ms)"

definition none_streaming :: "message list \<Rightarrow> bool" where
  "none_streaming ms = list_all (\<lambda>m. isStreaming m \<noteq> Some True) ms"

text \<open>A loaded assistant message without content: a generation that is still pending.\<close>

definition pending :: "api_message \<Rightarrow> bool" where
  "pending m = (m_role m = ''assistant'' \<and> full_text m = [])"

text \<open>
  The payloads with one of the three shapes that the decoder knows: an object whose
  \<open>type\<close> is \<open>token\<close>, \<open>status\<close> or \<open>done\<close>.
\<close>

fun recognized :: "json \<Rightarrow> bool" where
  "recognized (JObject kvs) =
     (map_of kvs ''type'' \<in> set [Some (JString ''token''), Some (JString ''status''),
                                   Some (JString ''done'')])"
| "recognized other = False"

section \<open>Sample host\<close>

text \<open>
  A concrete host for the evaluations below: \<open>JSON.parse\<close> on the JSON texts that occur
  in them (every other text used there is not JSON). Its two conversions to text are
  placeholders: no evaluation depends on the text they return.
\<close>

definition sample_parse :: "string \<Rightarrow> json option" where
  \<open>sample_parse = map_of
     [(''{}'', JObject []),
      (''{"type":"done"}'', JObject [(''type'', JString ''done'')]),
      (''{"type":"token","content":"4"}'',
         JObject [(''type'', JString ''token''), (''content'', JString ''4'')]),
      (''{"type":"note","text":"hi"}'',
         JObject [(''type'', JString ''note''), (''text'', JString ''hi'')]),
      (''{"c1":{"isPinned":true,"isArchived":false}}'',
         JObject [(''c1'', JObject [(''isPinned'', JBool True), (''isArchived'', JBool False)])])]\<close>

definition sample_host :: host where
  "sample_host = \<lparr> JSON_parse = sample_parse, JSON_stringify = (\<lambda>v. ''<json>''),
                     ToString = (\<lambda>v. ''<value>'') \<rparr>"

text \<open>An answer of 1000 characters, created at time 0, as the only message of a list.\<close>

definition long_answer :: "api_message list" where
  "long_answer = [\<lparr> m_role = ''assistant'', m_content = Some (replicate 1000 CHR ''a''),
                     image_data = None, created_at = Some 0 \<rparr>]"

text \<open>Conversations and states for the evaluations.\<close>

definition sample_conv :: "string \<Rightarrow> bool \<Rightarrow> conversation" where
  "sample_conv i pinned =
     \<lparr> conv_id = i, title = Some ''Limits'', conv_created_at = ''2026-01-01T00:00:00Z'',
       updated_at = None, isPinned = Some pinned, isArchived = Some False \<rparr>"

definition empty_state :: app_state where
  "empty_state =
     \<lparr> conversations = [], currentConversation = None, messages = [], isLoading = False,
       isInitializing = False, showPinLimitToast = False, toastTimers = [],
       isCreatingSessionRef = False,
       isSendingMessageRef = False, localStorage = [], console = [] \<rparr>"

text \<open>Five pinned conversations and a sixth that is not pinned.\<close>

definition five_pinned :: app_state where
  "five_pinned = empty_state
     \<lparr> conversations := [sample_conv ''c1'' True, sample_conv ''c2'' True,
                          sample_conv ''c3'' True, sample_conv ''c4'' True,
                          sample_conv ''c5'' True, sample_conv ''c6'' False],
       localStorage := [(''chat_metadata'', ''{}'')] \<rparr>"

text \<open>Seven pinned conversations; and two entries with one identifier beside four pinned.\<close>

definition seven_pinned :: app_state where
  "seven_pinned = empty_state
     \<lparr> conversations := [sample_conv ''c1'' True, sample_conv ''c2'' True,
                          sample_conv ''c3'' True, sample_conv ''c4'' True,
                          sample_conv ''c5'' True, sample_conv ''c6'' True,
                          sample_conv ''c7'' True],
       localStorage := [(''chat_metadata'', ''{}'')] \<rparr>"

definition shared_id :: app_state where
  "shared_id = empty_state
     \<lparr> conversations := [sample_conv ''c1'' False, sample_conv ''c1'' False,
                          sample_conv ''c2'' True, sample_conv ''c3'' True,
                          sample_conv ''c4'' True, sample_conv ''c5'' True],
       localStorage := [(''chat_metadata'', ''{}'')] \<rparr>"

text \<open>One conversation, and a metadata text that is not JSON.\<close>

definition corrupt_state :: app_state where
  \<open>corrupt_state = empty_state
     \<lparr> conversations := [sample_conv ''c1'' False],
       localStorage := [(''chat_metadata'', ''{"c1":''), (''user_profile'', ''{"name'')] \<rparr>\<close>


text \<open>The decoder at the start of a stream, with the placeholder as the only message.\<close>

definition st0 :: decoder where
  "st0 = \<lparr> assistantMessage = [], batchTokens = 0, buffer = [placeholder] \<rparr>"

text \<open>A question with its long answer; and a question whose answer is still generated.\<close>

definition question_and_answer :: "api_message list" where
  "question_and_answer =
     [\<lparr> m_role = ''user'', m_content = Some ''2+2?'', image_data = None, created_at = Some 0 \<rparr>,
      \<lparr> m_role = ''assistant'', m_content = Some (replicate 1000 CHR ''a''),
        image_data = None, created_at = Some 0 \<rparr>]"

definition pending_answer :: "api_message list" where
  "pending_answer =
     [\<lparr> m_role = ''user'', m_content = Some ''2+2?'', image_data = None, created_at = Some 0 \<rparr>,
      \<lparr> m_role = ''assistant'', m_content = Some [], image_data = None, created_at = Some 0 \<rparr>]"

text \<open>
  A conversation after a finished turn; and the same conversation loaded while its answer
  is still generated, so that its last message is streaming.
\<close>

definition settled_state :: app_state where
  "settled_state = empty_state
     \<lparr> currentConversation := Some ''c1'',
       messages := [user_message ''2+2?'' [],
                    placeholder\<lparr>content := ''4'', isStreaming := Some False,
                                 status := Some JNull\<rparr>] \<rparr>"

definition waiting_state :: app_state where
  "waiting_state = empty_state
     \<lparr> currentConversation := Some ''c1'',
       messages := parseMessagesData sample_host 1000 pending_answer \<rparr>"

text \<open>A loaded list with an assistant message without content before a user message.\<close>

definition pending_then_user :: "api_message list" where
  "pending_then_user =
     [\<lparr> m_role = ''assistant'', m_content = Some [], image_data = None, created_at = Some 0 \<rparr>,
      \<lparr> m_role = ''user'', m_content = Some ''hi'', image_data = None, created_at = Some 0 \<rparr>]"

text \<open>An answer whose stream fails at the first read.\<close>

definition broken_at_once :: "response fetched" where
  "broken_at_once =
     Resolved \<lparr> session_header = None, body = Some \<lparr> chunks = [], ending = Broken \<rparr> \<rparr>"

text \<open>An answer for a new session: one token, then the record \<open>done\<close>, in two chunks.\<close>

definition answer_body :: body_stream where
  \<open>answer_body =
     \<lparr> chunks = [''data: {"type":"token","content":"4"}\<newline>'',
                  ''data: {"type":"done"}\<newline>\<newline>''],
       ending = Closed \<rparr>\<close>

definition answer_response :: response where
  "answer_response = \<lparr> session_header = Some ''s1'', body = Some answer_body \<rparr>"

definition two_plus_two :: "response fetched" where
  "two_plus_two = Resolved answer_response"

text \<open>Answers in which a token record arrives in the chunk after a sentinel.\<close>

definition done_then_token :: "response fetched" where
  \<open>done_then_token =
     Resolved \<lparr> session_header = None,
                body = Some \<lparr> chunks = [''data: [DONE]\<newline>'',
                                          ''data: {"type":"token","content":"4"}\<newline>''],
                               ending = Closed \<rparr> \<rparr>\<close>

definition json_done_then_token :: "response fetched" where
  \<open>json_done_then_token =
     Resolved \<lparr> session_header = None,
                body = Some \<lparr> chunks = [''data: {"type":"done"}\<newline>\<newline>'',
                                          ''data: {"type":"token","content":"4"}\<newline>''],
                               ending = Closed \<rparr> \<rparr>\<close>

section \<open>Properties of parseMessagesData\<close>

lemma floor_quarter: "\<lfloor>real_of_int e * TYPING_SPEED\<rfloor> = e div 4"
  unfolding TYPING_SPEED_def
  using floor_divide_of_int_eq [of e 4, where ?'a = real] by simp

lemma length_parseMessagesData [simp]: "length (parseMessagesData h now data) = length data"
  by (simp add: parseMessagesData_def)

lemma nth_parseMessagesData:
  "i < length data \<Longrightarrow>
   parseMessagesData h now data ! i = parse_message h now (length data) i (data ! i)"
  by (simp add: parseMessagesData_def nth_enumerate_eq)

lemma last_parseMessagesData:
  assumes "data \<noteq> []"
  shows "last (parseMessagesData h now data) =
           parse_message h now (length data) (length data - 1) (last data)"
proof -
  have ne: "parseMessagesData h now data \<noteq> []"
    using assms by (simp add: parseMessagesData_def enumerate_eq_zip)
  have i: "length data - 1 < length data"
    using assms by simp
  show ?thesis
    using assms nth_parseMessagesData [OF i, of h now]
    by (simp add: last_conv_nth [OF ne] last_conv_nth [OF assms])
qed

lemma parse_message_simulated:
  assumes "0 < n" and "m_role m = ''assistant''" and "full_text m \<noteq> []"
    and "created_at m = Some c" and "visibleLength now c < int (length (full_text m))"
  shows "parse_message h now n (n - 1) m =
           \<lparr> role = m_role m, content = take (nat (max 0 (visibleLength now c))) (full_text m),
             fullContent = Some (full_text m), images = Some (parse_images h (image_data m)),
             isStreaming = Some True, isSimulating = Some True, status = None \<rparr>"
  using assms
  by (simp add: parse_message_def full_text_def visibleLength_def Let_def)

lemma parse_message_elapsed:
  assumes "0 < n" and "m_role m = ''assistant''" and "full_text m \<noteq> []"
    and "created_at m = Some c" and "int (length (full_text m)) \<le> visibleLength now c"
  shows "parse_message h now n (n - 1) m =
           \<lparr> role = m_role m, content = full_text m, fullContent = None,
             images = Some (parse_images h (image_data m)),
             isStreaming = Some False, isSimulating = None, status = None \<rparr>"
  using assms
  by (simp add: parse_message_def full_text_def visibleLength_def Let_def)

lemma parse_message_invalid_date:
  assumes "created_at m = None" and "full_text m \<noteq> []"
  shows "parse_message h now n idx m =
           \<lparr> role = m_role m, content = full_text m, fullContent = None,
             images = Some (parse_images h (image_data m)),
             isStreaming = Some False, isSimulating = None, status = None \<rparr>"
  using assms
  by (simp add: parse_message_def full_text_def Let_def)

lemma content_parse_message_cases:
  "content (parse_message h now n idx m) = full_text m \<or>
   (\<exists>k. content (parse_message h now n idx m) = take k (full_text m))"
  by (auto simp: parse_message_def full_text_def Let_def split: option.splits)

lemma trailing_answerD:
  assumes "trailing_answer data"
  shows "0 < length data" and "m_role (last data) = ''assistant''"
    and "full_text (last data) \<noteq> []"
  using assms by (auto simp: trailing_answer_def)

lemma loaded_trailing_eq:
  assumes "trailing_answer data"
  shows "loaded_trailing h now data =
           parse_message h now (length data) (length data - 1) (last data)"
  using trailing_answerD(1) [OF assms]
  by (simp add: loaded_trailing_def last_parseMessagesData)

lemma visibleLength_negative: "now < c \<Longrightarrow> visibleLength now c < 0"
  unfolding visibleLength_def floor_quarter by simp

text \<open>
  Claim C4. When the trailing message of a loaded list is an assistant message with
  non-empty content and a valid creation time \<open>c\<close>, the loaded message shows the prefix of
  the full content of length \<open>floor ((now - c) * 0.25)\<close> and is streaming and simulating
  (keeping the full text in the hidden property) if that value is below the full length,
  and shows the full content with \<open>isStreaming = false\<close> otherwise; a creation time that
  is not a date gives the full content as well. When 2000 ms have passed and the content
  has 1000 characters, exactly the first 500 are shown and the message is simulating.
\<close>

theorem parseMessagesData_reconstructs_prefix:
  assumes "trailing_answer data"
  shows "(\<forall>c. created_at (last data) = Some c \<and>
              visibleLength now c < int (length (full_text (last data))) \<longrightarrow>
            content (loaded_trailing h now data) =
              take (nat (visibleLength now c)) (full_text (last data)) \<and>
            (0 \<le> visibleLength now c \<longrightarrow>
               int (length (content (loaded_trailing h now data))) = visibleLength now c) \<and>
            fullContent (loaded_trailing h now data) = Some (full_text (last data)) \<and>
            isStreaming (loaded_trailing h now data) = Some True \<and>
            isSimulating (loaded_trailing h now data) = Some True) \<and>
         (\<forall>c. created_at (last data) = Some c \<and>
              int (length (full_text (last data))) \<le> visibleLength now c \<longrightarrow>
            content (loaded_trailing h now data) = full_text (last data) \<and>
            isStreaming (loaded_trailing h now data) = Some False) \<and>
         (created_at (last data) = None \<longrightarrow>
            content (loaded_trailing h now data) = full_text (last data) \<and>
            isStreaming (loaded_trailing h now data) = Some False) \<and>
         (\<forall>c. created_at (last data) = Some c \<and> now - c = 2000 \<and>
              length (full_text (last data)) = 1000 \<longrightarrow>
            content (loaded_trailing h now data) = take 500 (full_text (last data)) \<and>
            isStreaming (loaded_trailing h now data) = Some True \<and>
            isSimulating (loaded_trailing h now data) = Some True)"
proof -
  note t = trailing_answerD [OF assms]
  note l = loaded_trailing_eq [OF assms, of h now]
  have below: "content (loaded_trailing h now data) =
              take (nat (visibleLength now c)) (full_text (last data)) \<and>
            (0 \<le> visibleLength now c \<longrightarrow>
               int (length (content (loaded_trailing h now data))) = visibleLength now c) \<and>
            fullContent (loaded_trailing h now data) = Some (full_text (last data)) \<and>
            isStreaming (loaded_trailing h now data) = Some True \<and>
            isSimulating (loaded_trailing h now data) = Some True"
    if c: "created_at (last data) = Some c"
      and v: "visibleLength now c < int (length (full_text (last data)))" for c
  proof -
    have "nat (max 0 (visibleLength now c)) = nat (visibleLength now c)"
      by simp
    then show ?thesis
      unfolding l parse_message_simulated [OF t c v] using v by simp
  qed
  have reached: "content (loaded_trailing h now data) = full_text (last data) \<and>
            isStreaming (loaded_trailing h now data) = Some False"
    if c: "created_at (last data) = Some c"
      and v: "int (length (full_text (last data))) \<le> visibleLength now c" for c
    unfolding l parse_message_elapsed [OF t c v] by simp
  have invalid: "content (loaded_trailing h now data) = full_text (last data) \<and>
            isStreaming (loaded_trailing h now data) = Some False"
    if "created_at (last data) = None"
    unfolding l by (simp add: parse_message_invalid_date [OF that t(3)])
  have scenario: "content (loaded_trailing h now data) = take 500 (full_text (last data)) \<and>
            isStreaming (loaded_trailing h now data) = Some True \<and>
            isSimulating (loaded_trailing h now data) = Some True"
    if c: "created_at (last data) = Some c" and e: "now - c = 2000"
      and n: "length (full_text (last data)) = 1000" for c
  proof -
    have vl: "visibleLength now c = 500"
      by (simp add: visibleLength_def e TYPING_SPEED_def)
    have v: "visibleLength now c < int (length (full_text (last data)))"
      by (simp add: vl n)
    show ?thesis
      using below [OF c v] by (simp add: vl)
  qed
  show ?thesis
    using below reached invalid scenario by blast
qed

text \<open>
  Claim C4, at an answer of 1000 characters loaded 2000 ms after its creation.
\<close>

theorem parseMessagesData_reconstructs_prefix_witness:
  "trailing_answer long_answer \<and>
   content (loaded_trailing sample_host 2000 long_answer) = replicate 500 CHR ''a'' \<and>
   isStreaming (loaded_trailing sample_host 2000 long_answer) = Some True \<and>
   isSimulating (loaded_trailing sample_host 2000 long_answer) = Some True"
proof -
  have t: "trailing_answer long_answer"
    by (simp add: trailing_answer_def long_answer_def full_text_def)
  show ?thesis
    using t parseMessagesData_reconstructs_prefix [OF t, of 2000 sample_host]
    by (simp add: long_answer_def full_text_def)
qed

text \<open>
  Claim C5. The visible content of every loaded message is a prefix of the full content
  that the backend delivered for it, so it is never longer; and when the trailing
  assistant message is old enough that the expected visible length has reached the length
  of the full content, the loaded message is exactly the full content, not streaming and
  not simulating.
\<close>

theorem visible_content_never_overshoots:
  "(\<forall>i<length data.
      prefix (content (parseMessagesData h now data ! i)) (full_text (data ! i)) \<and>
      length (content (parseMessagesData h now data ! i)) \<le> length (full_text (data ! i))) \<and>
   (trailing_answer data \<longrightarrow>
      prefix (content (loaded_trailing h now data)) (full_text (last data)) \<and>
      (\<forall>c. created_at (last data) = Some c \<and>
           int (length (full_text (last data))) \<le> visibleLength now c \<longrightarrow>
         content (loaded_trailing h now data) = full_text (last data) \<and>
         isStreaming (loaded_trailing h now data) = Some False \<and>
         isSimulating (loaded_trailing h now data) \<noteq> Some True))"
proof -
  have pre: "prefix (content (parse_message h now n idx m)) (full_text m)" for n idx m
    using content_parse_message_cases [of h now n idx m] by (auto simp: take_is_prefix)
  have each: "prefix (content (parseMessagesData h now data ! i)) (full_text (data ! i)) \<and>
      length (content (parseMessagesData h now data ! i)) \<le> length (full_text (data ! i))"
    if "i < length data" for i
    using pre [of "length data" i "data ! i"] that
    by (simp add: nth_parseMessagesData prefix_length_le)
  have limit: "prefix (content (loaded_trailing h now data)) (full_text (last data)) \<and>
      (\<forall>c. created_at (last data) = Some c \<and>
           int (length (full_text (last data))) \<le> visibleLength now c \<longrightarrow>
         content (loaded_trailing h now data) = full_text (last data) \<and>
         isStreaming (loaded_trailing h now data) = Some False \<and>
         isSimulating (loaded_trailing h now data) \<noteq> Some True)"
    if t: "trailing_answer data"
  proof -
    note d = trailing_answerD [OF t]
    note l = loaded_trailing_eq [OF t, of h now]
    have full: "content (loaded_trailing h now data) = full_text (last data) \<and>
         isStreaming (loaded_trailing h now data) = Some False \<and>
         isSimulating (loaded_trailing h now data) \<noteq> Some True"
      if c: "created_at (last data) = Some c"
        and v: "int (length (full_text (last data))) \<le> visibleLength now c" for c
      unfolding l parse_message_elapsed [OF d c v] by simp
    show ?thesis
      using full pre [of "length data" "length data - 1" "last data"]
      unfolding l by blast
  qed
  show ?thesis
    using each limit by blast
qed

text \<open>
  Claim C5, at the same answer loaded after 4000 ms (the limit) and after 2000 ms.
\<close>

theorem visible_content_never_overshoots_witness:
  "trailing_answer long_answer \<and>
   content (loaded_trailing sample_host 4000 long_answer) = replicate 1000 CHR ''a'' \<and>
   isStreaming (loaded_trailing sample_host 4000 long_answer) = Some False \<and>
   prefix (content (parseMessagesData sample_host 2000 long_answer ! 0))
     (replicate 1000 CHR ''a'')"
proof -
  have t: "trailing_answer long_answer"
    by (simp add: trailing_answer_def long_answer_def full_text_def)
  have v: "visibleLength 4000 0 = 1000"
    by (simp add: visibleLength_def TYPING_SPEED_def)
  show ?thesis
    using t v visible_content_never_overshoots [of long_answer sample_host 4000]
      visible_content_never_overshoots [of long_answer sample_host 2000]
    by (simp add: long_answer_def full_text_def)
qed

text \<open>
  Claim C9. When the creation time of the trailing assistant message (with non-empty
  content) lies after the time of the load, the expected visible length is negative, the
  bound of the substring is clamped to 0 and the loaded message shows the empty text; it
  is streaming and simulating and keeps the full text for the reveal. The load is a total
  function: it has no failing branch.
\<close>

theorem future_message_shows_empty_text:
  assumes "trailing_answer data" and "created_at (last data) = Some c" and "now < c"
  shows "visibleLength now c < 0 \<and>
         nat (max 0 (visibleLength now c)) = 0 \<and>
         content (loaded_trailing h now data) = [] \<and>
         fullContent (loaded_trailing h now data) = Some (full_text (last data)) \<and>
         isStreaming (loaded_trailing h now data) = Some True \<and>
         isSimulating (loaded_trailing h now data) = Some True"
proof -
  note d = trailing_answerD [OF assms(1)]
  have neg: "visibleLength now c < 0"
    using assms(3) by (rule visibleLength_negative)
  then have v: "visibleLength now c < int (length (full_text (last data)))"
    by simp
  show ?thesis
    unfolding loaded_trailing_eq [OF assms(1)] parse_message_simulated [OF d assms(2) v]
    using neg by simp
qed

text \<open>
  Claim C9, at the same answer loaded 1 ms before its creation time.
\<close>

theorem future_message_shows_empty_text_witness:
  "trailing_answer long_answer \<and> created_at (last long_answer) = Some 0 \<and> (-1::int) < 0 \<and>
   content (loaded_trailing sample_host (-1) long_answer) = [] \<and>
   isStreaming (loaded_trailing sample_host (-1) long_answer) = Some True"
proof -
  have t: "trailing_answer long_answer"
    by (simp add: trailing_answer_def long_answer_def full_text_def)
  have c: "created_at (last long_answer) = Some 0"
    by (simp add: long_answer_def)
  show ?thesis
    using t c future_message_shows_empty_text [OF t c, of "-1" sample_host]
    by simp
qed

section \<open>Properties of the conversation list\<close>

lemma toggle_pinned_absent:
  "i \<notin> conv_id ` set cs \<Longrightarrow> map (toggle_pinned i) cs = cs"
  by (induction cs) (auto simp: toggle_pinned_def)

lemma conversations_setItem [simp]: "conversations (setItem k v s) = conversations s"
  by (simp add: setItem_def)

lemma persist_metadata_fields:
  assumes "persist_metadata h i updated s = Inr s'"
  shows "conversations s' = conversations s" and "showPinLimitToast s' = showPinLimitToast s"
    and "toastTimers s' = toastTimers s"
  using assms
  by (auto simp: persist_metadata_def setItem_def split: sum.splits option.splits)

lemma persist_metadata_object:
  assumes "read_metadata h s = Inr (JObject kvs)" and "find_conv i updated = Some conv"
  shows "persist_metadata h i updated s =
           Inr (setItem ''chat_metadata''
                 (JSON_stringify h
                    (JObject (js_put i (JObject (metadata_entry (map_of kvs i) conv)) kvs))) s)"
  using assms by (simp add: persist_metadata_def get_member_def)

lemma togglePin_result:
  assumes "togglePin h i s = Inr s'"
  shows "conversations s' = conversations s \<or>
         conversations s' = map (toggle_pinned i) (conversations s) \<and>
         ((\<exists>c. find_conv i (conversations s) = Some c \<and> isPinned c = Some True) \<or>
          pinned_count (conversations s) < 5)"
proof (cases "\<not> (case find_conv i (conversations s) of None \<Rightarrow> False
                  | Some c \<Rightarrow> isPinned c = Some True) \<and> 5 \<le> pinned_count (conversations s)")
  case True
  then have "togglePin h i s =
      Inr (s\<lparr>showPinLimitToast := True, toastTimers := toastTimers s @ [3000]\<rparr>)"
    by (simp add: togglePin_def Let_def)
  then show ?thesis
    using assms by auto
next
  case False
  then obtain t where t: "persist_metadata h i (map (toggle_pinned i) (conversations s)) s = Inr t"
    and s': "s' = t\<lparr>conversations := map (toggle_pinned i) (conversations s)\<rparr>"
    using assms by (auto simp: togglePin_def Let_def split: sum.splits)
  from False have "(\<exists>c. find_conv i (conversations s) = Some c \<and> isPinned c = Some True) \<or>
          pinned_count (conversations s) < 5"
    by (auto split: option.splits)
  then show ?thesis
    using s' by simp
qed

lemma pinned_count_Cons:
  "pinned_count (c # cs) = (if isPinned c = Some True then 1 else 0) + pinned_count cs"
  by (simp add: pinned_count_def)

lemma pinned_count_toggle_le:
  "distinct (map conv_id cs) \<Longrightarrow>
   pinned_count (map (toggle_pinned i) cs) \<le> Suc (pinned_count cs)"
proof (induction cs)
  case Nil
  then show ?case by (simp add: pinned_count_def)
next
  case (Cons c cs)
  show ?case
  proof (cases "conv_id c = i")
    case True
    then have "i \<notin> conv_id ` set cs"
      using Cons.prems by auto
    then have "map (toggle_pinned i) cs = cs"
      by (rule toggle_pinned_absent)
    then show ?thesis
      by (simp add: pinned_count_Cons)
  next
    case False
    then have "toggle_pinned i c = c"
      by (simp add: toggle_pinned_def)
    then show ?thesis
      using Cons by (simp add: pinned_count_Cons)
  qed
qed

lemma pinned_count_unpin:
  "distinct (map conv_id cs) \<Longrightarrow> find_conv i cs = Some c \<Longrightarrow> isPinned c = Some True \<Longrightarrow>
   pinned_count (map (toggle_pinned i) cs) \<le> pinned_count cs"
proof (induction cs)
  case Nil
  then show ?case by (simp add: find_conv_def)
next
  case (Cons d cs)
  show ?case
  proof (cases "conv_id d = i")
    case True
    then have "i \<notin> conv_id ` set cs"
      using Cons.prems by auto
    then have same: "map (toggle_pinned i) cs = cs"
      by (rule toggle_pinned_absent)
    have "d = c"
      using True Cons.prems(2) by (simp add: find_conv_def)
    then have "isPinned (toggle_pinned i d) \<noteq> Some True"
      using True Cons.prems(3) by (simp add: toggle_pinned_def)
    then show ?thesis
      by (simp add: pinned_count_Cons same)
  next
    case False
    then have "toggle_pinned i d = d" and "find_conv i cs = Some c"
      using Cons.prems(2) by (simp_all add: toggle_pinned_def find_conv_def)
    then show ?thesis
      using Cons by (simp add: pinned_count_Cons)
  qed
qed

lemma sample_parse_empty_object: "JSON_parse sample_host ''{}'' = Some (JObject [])"
  by (simp add: sample_host_def sample_parse_def)

lemma empty_metadata:
  "getItem ''chat_metadata'' s = Some ''{}'' \<Longrightarrow> read_metadata sample_host s = Inr (JObject [])"
  by (simp add: read_metadata_def sample_parse_empty_object)

lemma find_conv_toggled:
  "find_conv i cs = Some c \<Longrightarrow> find_conv i (map (toggle_pinned i) cs) \<noteq> None"
  unfolding find_conv_def
  by (induction cs) (auto simp: toggle_pinned_def Let_def)

lemma togglePin_accepted:
  assumes "read_metadata h s = Inr (JObject kvs)"
    and "find_conv i (conversations s) = Some c"
    and "isPinned c = Some True \<or> pinned_count (conversations s) < 5"
  shows "\<exists>s'. togglePin h i s = Inr s' \<and>
              conversations s' = map (toggle_pinned i) (conversations s)"
proof -
  obtain conv where "find_conv i (map (toggle_pinned i) (conversations s)) = Some conv"
    using find_conv_toggled [OF assms(2)] by auto
  from persist_metadata_object [OF assms(1) this] show ?thesis
    using assms(2,3) by (auto simp: togglePin_def Let_def)
qed

lemma togglePin_produces_state:
  assumes "read_metadata h s = Inr (JObject kvs)"
    and "find_conv i (conversations s) = Some c"
  shows "\<exists>s'. togglePin h i s = Inr s'"
proof (cases "isPinned c = Some True \<or> pinned_count (conversations s) < 5")
  case True
  then show ?thesis
    using togglePin_accepted [OF assms] by blast
next
  case False
  then show ?thesis
    using assms(2) by (simp add: togglePin_def Let_def)
qed

text \<open>
  Claim C6, amended. On a conversation list with distinct identifiers and at most 5
  pinned conversations, every state that \<open>togglePin\<close> produces has at most 5 pinned
  conversations. When 5 (or more) conversations are pinned and the target is not pinned,
  \<open>togglePin\<close> returns the state it was given with the conversation list and the
  storage, which holds the persisted metadata, unchanged, the notice switched on and a
  timer of 3000 ms pending whose callback switches the notice off. \<open>togglePin\<close> does
  produce a state whenever the stored metadata parse to an object and the conversation
  is in the list.
\<close>

theorem togglePin_keeps_pin_cap:
  "(distinct (map conv_id (conversations s)) \<and> pinned_count (conversations s) \<le> 5 \<longrightarrow>
      (\<forall>s'. togglePin h i s = Inr s' \<longrightarrow> pinned_count (conversations s') \<le> 5)) \<and>
   (5 \<le> pinned_count (conversations s) \<and>
    (\<forall>c. find_conv i (conversations s) = Some c \<longrightarrow> isPinned c \<noteq> Some True) \<longrightarrow>
      togglePin h i s =
        Inr (s\<lparr>showPinLimitToast := True, toastTimers := toastTimers s @ [3000]\<rparr>) \<and>
      (\<forall>s'. togglePin h i s = Inr s' \<longrightarrow>
         conversations s' = conversations s \<and> localStorage s' = localStorage s \<and>
         showPinLimitToast s' \<and> toastTimers s' = toastTimers s @ [3000] \<and>
         \<not> showPinLimitToast (toast_timer_fires s'))) \<and>
   (\<forall>kvs c. read_metadata h s = Inr (JObject kvs) \<and>
            find_conv i (conversations s) = Some c \<longrightarrow>
      (\<exists>s'. togglePin h i s = Inr s'))"
proof -
  have cap: "pinned_count (conversations s') \<le> 5"
    if d: "distinct (map conv_id (conversations s))"
      and n: "pinned_count (conversations s) \<le> 5"
      and r: "togglePin h i s = Inr s'" for s'
    using togglePin_result [OF r] n pinned_count_toggle_le [OF d, of i]
      pinned_count_unpin [OF d, of i]
    by (elim disjE conjE exE) (simp, fastforce, simp)
  have reject: "togglePin h i s =
      Inr (s\<lparr>showPinLimitToast := True, toastTimers := toastTimers s @ [3000]\<rparr>)"
    if "5 \<le> pinned_count (conversations s)"
      and "\<forall>c. find_conv i (conversations s) = Some c \<longrightarrow> isPinned c \<noteq> Some True"
    using that by (simp add: togglePin_def Let_def split: option.splits)
  have fires: "\<not> showPinLimitToast (toast_timer_fires
      (s\<lparr>showPinLimitToast := True, toastTimers := toastTimers s @ [3000]\<rparr>))"
    by (simp add: toast_timer_fires_def split: list.splits)
  have "togglePin h i s =
        Inr (s\<lparr>showPinLimitToast := True, toastTimers := toastTimers s @ [3000]\<rparr>) \<and>
      (\<forall>s'. togglePin h i s = Inr s' \<longrightarrow>
         conversations s' = conversations s \<and> localStorage s' = localStorage s \<and>
         showPinLimitToast s' \<and> toastTimers s' = toastTimers s @ [3000] \<and>
         \<not> showPinLimitToast (toast_timer_fires s'))"
    if "5 \<le> pinned_count (conversations s)"
      and "\<forall>c. find_conv i (conversations s) = Some c \<longrightarrow> isPinned c \<noteq> Some True"
    using reject [OF that] fires by auto
  then show ?thesis
    using cap togglePin_produces_state by blast
qed

lemma seven_pinned_facts:
  "getItem ''chat_metadata'' seven_pinned = Some ''{}''"
  "find_conv ''c1'' (conversations seven_pinned) = Some (sample_conv ''c1'' True)"
  "distinct (map conv_id (conversations seven_pinned))"
  "pinned_count (conversations seven_pinned) = 7"
  "pinned_count (map (toggle_pinned ''c1'') (conversations seven_pinned)) = 6"
  by (simp_all add: seven_pinned_def empty_state_def getItem_def find_conv_def sample_conv_def
      pinned_count_def toggle_pinned_def)

lemma shared_id_facts:
  "getItem ''chat_metadata'' shared_id = Some ''{}''"
  "find_conv ''c1'' (conversations shared_id) = Some (sample_conv ''c1'' False)"
  "\<not> distinct (map conv_id (conversations shared_id))"
  "pinned_count (conversations shared_id) = 4"
  "pinned_count (map (toggle_pinned ''c1'') (conversations shared_id)) = 6"
  by (simp_all add: shared_id_def empty_state_def getItem_def find_conv_def sample_conv_def
      pinned_count_def toggle_pinned_def)

text \<open>
  Claim C6 as stated fails for some conversation lists: with seven pinned conversations
  an unpin leaves six pinned; with two entries that share an identifier a pin takes four
  pinned conversations to six.
\<close>

theorem togglePin_can_exceed_cap:
  "distinct (map conv_id (conversations seven_pinned)) \<and>
   \<not> isl (togglePin sample_host ''c1'' seven_pinned) \<and>
   pinned_count (conversations (projr (togglePin sample_host ''c1'' seven_pinned))) = 6 \<and>
   pinned_count (conversations shared_id) = 4 \<and>
   \<not> isl (togglePin sample_host ''c1'' shared_id) \<and>
   pinned_count (conversations (projr (togglePin sample_host ''c1'' shared_id))) = 6"
proof -
  obtain s7 where s7: "togglePin sample_host ''c1'' seven_pinned = Inr s7"
    "conversations s7 = map (toggle_pinned ''c1'') (conversations seven_pinned)"
    using togglePin_accepted [OF empty_metadata [OF seven_pinned_facts(1)] seven_pinned_facts(2)]
    by (auto simp: sample_conv_def)
  obtain s4 where s4: "togglePin sample_host ''c1'' shared_id = Inr s4"
    "conversations s4 = map (toggle_pinned ''c1'') (conversations shared_id)"
    using togglePin_accepted [OF empty_metadata [OF shared_id_facts(1)] shared_id_facts(2)]
      shared_id_facts(4)
    by auto
  show ?thesis
    by (simp add: s7 s4 seven_pinned_facts shared_id_facts)
qed

lemma five_pinned_facts:
  "getItem ''chat_metadata'' five_pinned = Some ''{}''"
  "find_conv ''c1'' (conversations five_pinned) = Some (sample_conv ''c1'' True)"
  "distinct (map conv_id (conversations five_pinned))"
  "pinned_count (conversations five_pinned) = 5"
  "\<forall>c. find_conv ''c6'' (conversations five_pinned) = Some c \<longrightarrow> isPinned c \<noteq> Some True"
  by (simp_all add: five_pinned_def empty_state_def getItem_def find_conv_def sample_conv_def
      pinned_count_def)

text \<open>
  Claim C6, amended, at five pinned conversations: the sixth pin is rejected, an unpin
  goes through.
\<close>

theorem togglePin_keeps_pin_cap_witness:
  "distinct (map conv_id (conversations five_pinned)) \<and>
   pinned_count (conversations five_pinned) = 5 \<and>
   togglePin sample_host ''c6'' five_pinned =
     Inr (five_pinned\<lparr>showPinLimitToast := True, toastTimers := [3000]\<rparr>) \<and>
   (\<exists>s'. togglePin sample_host ''c1'' five_pinned = Inr s' \<and>
         pinned_count (conversations s') \<le> 5)"
proof -
  have le: "pinned_count (conversations five_pinned) \<le> 5"
    and ge: "5 \<le> pinned_count (conversations five_pinned)"
    by (simp_all add: five_pinned_facts)
  have t: "toastTimers five_pinned @ [3000] = [3000]"
    by (simp add: five_pinned_def empty_state_def)
  have "togglePin sample_host ''c6'' five_pinned =
      Inr (five_pinned\<lparr>showPinLimitToast := True,
                        toastTimers := toastTimers five_pinned @ [3000]\<rparr>)"
    using togglePin_keeps_pin_cap [of five_pinned sample_host "''c6''"] ge five_pinned_facts(5)
    by blast
  then have a: "togglePin sample_host ''c6'' five_pinned =
      Inr (five_pinned\<lparr>showPinLimitToast := True, toastTimers := [3000]\<rparr>)"
    by (simp only: t)
  have r: "\<exists>s'. togglePin sample_host ''c1'' five_pinned = Inr s'"
    using togglePin_accepted [OF empty_metadata [OF five_pinned_facts(1)] five_pinned_facts(2)]
    by (auto simp: sample_conv_def)
  have b: "\<exists>s'. togglePin sample_host ''c1'' five_pinned = Inr s' \<and>
         pinned_count (conversations s') \<le> 5"
    using togglePin_keeps_pin_cap [of five_pinned sample_host "''c1''"]
      five_pinned_facts(3) le r
    by blast
  show ?thesis
    using five_pinned_facts(3,4) a b by blast
qed

section \<open>Unparsable text in the storage\<close>

text \<open>
  The three readers that run inside a \<open>try\<close>: the exception of \<open>JSON.parse\<close> is caught
  and logged. The user profile falls back to the guest profile; the load on mount leaves
  the conversation list as it was; the deletion stops before the expanded flags.
\<close>

lemma init_userProfile_unparsable:
  "getItem ''user_profile'' s = Some saved \<Longrightarrow> saved \<noteq> [] \<Longrightarrow> JSON_parse h saved = None \<Longrightarrow>
   init_userProfile h avatar s =
     (guest_profile avatar, console_error ''Failed to parse user_profile'' s)"
  by (simp add: init_userProfile_def Let_def)

lemma initConversations_unparsable:
  "read_metadata h s = Inl e \<Longrightarrow>
   initConversations h now (Resolved data) loaded s =
     (console_error ''Failed to fetch conversations:'' s)\<lparr>isInitializing := False\<rparr>"
  by (simp add: initConversations_def Let_def)

lemma deleteConversation_unparsable:
  "read_metadata h (remove_from_view i s) = Inl e \<Longrightarrow>
   deleteConversation h (Resolved u) i s =
     console_error ''Failed to delete conversation:'' (remove_from_view i s)"
  by (simp add: deleteConversation_def cleanup_storage_def Let_def)

lemma corrupt_text_rejected: \<open>JSON_parse sample_host ''{"c1":'' = None\<close>
  by (simp add: sample_host_def sample_parse_def)

lemma corrupt_state_metadata: "read_metadata sample_host corrupt_state = Inl SyntaxError"
  by (simp add: read_metadata_def getItem_def corrupt_text_rejected corrupt_state_def
      empty_state_def)

text \<open>
  Claim C8, at a storage whose metadata text is not JSON: \<open>togglePin\<close> and
  \<open>toggleArchive\<close> parse it outside any \<open>try\<close>, and the \<open>SyntaxError\<close> leaves the
  state updater instead of being caught and replaced by an empty default.
\<close>

theorem corrupt_metadata_escapes_toggles:
  "togglePin sample_host ''c1'' corrupt_state = Inl SyntaxError \<and>
   toggleArchive sample_host ''c1'' corrupt_state = Inl SyntaxError"
proof -
  have f: "find_conv ''c1'' (conversations corrupt_state) = Some (sample_conv ''c1'' False)"
    by (simp add: corrupt_state_def find_conv_def sample_conv_def)
  have n: "pinned_count (conversations corrupt_state) = 0"
    by (simp add: corrupt_state_def pinned_count_def sample_conv_def)
  have p: "persist_metadata sample_host i cs corrupt_state = Inl SyntaxError" for i cs
    by (simp add: persist_metadata_def corrupt_state_metadata)
  have c: "currentConversation corrupt_state = None"
    by (simp add: corrupt_state_def empty_state_def)
  show ?thesis
    by (simp add: togglePin_def toggleArchive_def Let_def f n p c)
qed

section \<open>Properties of deleteConversation\<close>


lemma chat_metadata_not_expand_key [simp]: "\<not> expand_key_of i ''chat_metadata''"
  by (simp add: expand_key_of_def)


lemma getItem_setItem: "getItem k (setItem k' v s) = (if k = k' then Some v else getItem k s)"
  by (simp add: getItem_def setItem_def update_conv)













section \<open>Properties of sendMessage\<close>

lemma update_last_snoc [simp]: "update_last f (pre @ [m]) = pre @ [f m]"
  by (simp add: update_last_def)

lemma decode_payload_buffer:
  assumes "decode_payload h d st = Some st'" and "buffer st = pre @ [m]"
  shows "\<exists>m'. buffer st' = pre @ [m'] \<and> role m' = role m"
  using assms
  by (auto simp: decode_payload_def Let_def append_token_def
           split: option.splits json.splits if_splits)

lemma flush_buffer:
  assumes "buffer st = pre @ [m]"
  shows "\<exists>m'. buffer (flush st) = pre @ [m'] \<and> role m' = role m"
  using assms by (simp add: flush_def)

lemma process_lines_buffer:
  "buffer st = pre @ [m] \<Longrightarrow>
   \<exists>m'. buffer (process_lines h ls st) = pre @ [m'] \<and> role m' = role m"
proof (induction ls arbitrary: st m)
  case Nil
  then show ?case by simp
next
  case (Cons line rest)
  show ?case
  proof (cases "prefix ''data: '' line \<and> drop 6 line \<noteq> ''[DONE]''")
    case False
    then show ?thesis
      using Cons by (auto simp: Let_def)
  next
    case True
    show ?thesis
    proof (cases "decode_payload h (drop 6 line) st")
      case None
      then show ?thesis
        using True Cons.prems by (simp add: Let_def)
    next
      case (Some st1)
      obtain m1 where m1: "buffer st1 = pre @ [m1]" "role m1 = role m"
        using decode_payload_buffer [OF Some Cons.prems] by blast
      let ?st2 = "if batchTokens st1 \<ge> BATCH_SIZE \<or> rest = [] then flush st1 else st1"
      obtain m2 where m2: "buffer ?st2 = pre @ [m2]" "role m2 = role m"
        using m1 flush_buffer [OF m1(1)] by (cases "batchTokens st1 \<ge> BATCH_SIZE \<or> rest = []") auto
      have "process_lines h (line # rest) st = process_lines h rest ?st2"
        using True Some by (simp add: Let_def)
      then show ?thesis
        using Cons.IH [OF m2(1)] m2(2) by auto
    qed
  qed
qed

lemma read_loop_buffer:
  "buffer st = pre @ [m] \<Longrightarrow>
   \<exists>m'. buffer (read_loop h cs st) = pre @ [m'] \<and> role m' = role m"
proof (induction cs arbitrary: st m)
  case Nil
  then show ?case by simp
next
  case (Cons c cs)
  have "buffer (st\<lparr>batchTokens := 0\<rparr>) = pre @ [m]"
    using Cons.prems by simp
  then obtain m1 where m1: "buffer (process_lines h (chunk_lines c) (st\<lparr>batchTokens := 0\<rparr>)) = pre @ [m1]"
      "role m1 = role m"
    using process_lines_buffer by blast
  show ?case
    using Cons.IH [OF m1(1)] m1(2) by auto
qed

lemma messages_console_error [simp]: "messages (console_error l s) = messages s"
  by (simp add: console_error_def)

lemma messages_setItem [simp]: "messages (setItem k v s) = messages s"
  by (simp add: setItem_def)

lemma messages_new_session [simp]: "messages (new_session i u n s) = messages s"
  by (simp add: new_session_def Let_def)

lemma fail_send_after_user:
  "messages s = pre @ [user_message u p] \<Longrightarrow>
   messages (fail_send s) = pre @ [user_message u p, error_message]"
  by (simp add: fail_send_def Let_def user_message_def)

lemma fail_send_after_assistant:
  "messages s = pre @ [m] \<Longrightarrow> role m = ''assistant'' \<Longrightarrow>
   messages (fail_send s) =
     pre @ [m\<lparr>isStreaming := Some False, status := Some JNull\<rparr>, error_message]"
  by (simp add: fail_send_def Let_def finish_streaming_def)

lemma messages_begin_send [simp]:
  "messages (begin_send text imgs s) =
     messages s @ [user_message (trim text) (map preview imgs)]"
  by (simp add: begin_send_def)

lemma messages_accept_session [simp]:
  "messages (accept_session now res u nc s) = messages s"
  by (simp add: accept_session_def split: option.splits)

lemma stream_progress_messages:
  "\<exists>m. role m = ''assistant'' \<and> messages (stream_progress h b n s) = messages s @ [m]"
  using read_loop_buffer [of "\<lparr> assistantMessage = [], batchTokens = 0,
      buffer = messages s @ [placeholder] \<rparr>" "messages s" placeholder h "take n (chunks b)"]
  by (auto simp: stream_progress_def append_placeholder_def placeholder_def)

lemma stream_progress_cong:
  "messages t = messages t' \<Longrightarrow>
   messages (stream_progress h b n t) = messages (stream_progress h b n t')"
  by (simp add: stream_progress_def append_placeholder_def)

lemma stream_response_messages:
  "\<exists>m. role m = ''assistant'' \<and> isStreaming m = Some False \<and>
       messages (stream_response h b s) =
         messages s @ (case ending b of Closed \<Rightarrow> [m] | Broken \<Rightarrow> [m, error_message])"
proof -
  let ?s1 = "stream_progress h b (length (chunks b)) s"
  obtain m where m: "messages ?s1 = messages s @ [m]" "role m = ''assistant''"
    using stream_progress_messages by blast
  let ?m = "m\<lparr>isStreaming := Some False, status := Some JNull\<rparr>"
  have "messages (stream_response h b s) =
         messages s @ (case ending b of Closed \<Rightarrow> [?m] | Broken \<Rightarrow> [?m, error_message])"
  proof (cases "ending b")
    case Closed
    then show ?thesis
      by (simp add: stream_response_def Let_def m finish_streaming_def)
  next
    case Broken
    from fail_send_after_assistant [OF m] Broken show ?thesis
      by (simp add: stream_response_def Let_def)
  qed
  moreover have "role ?m = ''assistant''" "isStreaming ?m = Some False"
    by (simp_all add: m)
  ultimately show ?thesis by blast
qed

lemma stream_response_cong:
  assumes "messages t = messages t'"
  shows "messages (stream_response h b t) = messages (stream_response h b t')"
proof -
  have p: "messages (stream_progress h b (length (chunks b)) t) =
      messages (stream_progress h b (length (chunks b)) t')"
    using assms by (rule stream_progress_cong)
  show ?thesis
    by (simp add: stream_response_def Let_def fail_send_def p split: stream_end.splits)
qed

lemma sendMessage_messages:
  "messages (sendMessage h now answer text imgs s) =
     (case answer of
        Rejected \<Rightarrow> messages s @ [user_message (trim text) (map preview imgs), error_message]
      | Resolved res \<Rightarrow>
          (case body res of
             None \<Rightarrow> messages s @ [user_message (trim text) (map preview imgs), error_message]
           | Some b \<Rightarrow>
               messages (stream_response h b
                 (s\<lparr>messages := messages s @ [user_message (trim text) (map preview imgs)]\<rparr>))))"
proof -
  let ?u = "user_message (trim text) (map preview imgs)"
  let ?s1 = "begin_send text imgs s"
  have f: "messages (fail_send t) = messages s @ [?u, error_message]"
    if "messages t = messages s @ [?u]" for t
    using fail_send_after_user [OF that] by simp
  show ?thesis
  proof (cases answer)
    case Rejected
    then show ?thesis
      by (simp add: sendMessage_def Let_def f)
  next
    case (Resolved res)
    let ?s3 = "accept_session now res (trim text) (no_conversation s) ?s1"
    have m3: "messages ?s3 = messages s @ [?u]"
      by simp
    have "messages (sendMessage h now answer text imgs s) =
            (case body res of None \<Rightarrow> messages (fail_send ?s3)
             | Some b \<Rightarrow> messages (stream_response h b ?s3))"
      by (simp add: sendMessage_def Let_def Resolved split: option.splits)
    also have "\<dots> = (case body res of
             None \<Rightarrow> messages s @ [?u, error_message]
           | Some b \<Rightarrow> messages (stream_response h b (s\<lparr>messages := messages s @ [?u]\<rparr>)))"
      using f [OF m3] stream_response_cong [of ?s3 "s\<lparr>messages := messages s @ [?u]\<rparr>"] m3
      by (simp split: option.splits)
    finally show ?thesis
      by (simp add: Resolved)
  qed
qed

text \<open>
  Claim C1, amended. Every send leaves the buffer it found unchanged and appends exactly
  one user message followed by one or two assistant messages: the placeholder when the
  stream was opened, and the error message when the send failed (both when the stream
  broke after the placeholder was appended). After the send has settled no appended
  message has \<open>isStreaming = true\<close>; the placeholder has \<open>isStreaming = false\<close>.
\<close>

theorem sendMessage_appended_messages:
  "\<exists>tail. messages (sendMessage h now answer text imgs s) =
            messages s @ user_message (trim text) (map preview imgs) # tail \<and>
     isStreaming (user_message (trim text) (map preview imgs)) \<noteq> Some True \<and>
     list_all (\<lambda>m. role m = ''assistant'' \<and> isStreaming m \<noteq> Some True) tail \<and>
     1 \<le> length tail \<and> length tail \<le> 2 \<and>
     (\<forall>res b. answer = Resolved res \<and> body res = Some b \<and> ending b = Closed \<longrightarrow>
        length tail = 1 \<and> isStreaming (last tail) = Some False) \<and>
     (\<forall>res b. answer = Resolved res \<and> body res = Some b \<and> ending b = Broken \<longrightarrow>
        length tail = 2 \<and> isStreaming (hd tail) = Some False \<and> last tail = error_message) \<and>
     (answer = Rejected \<or> (\<exists>res. answer = Resolved res \<and> body res = None) \<longrightarrow>
        tail = [error_message])"
proof -
  let ?u = "user_message (trim text) (map preview imgs)"
  have e: "role error_message = ''assistant''" "isStreaming error_message \<noteq> Some True"
    by (simp_all add: error_message_def)
  have u: "isStreaming ?u \<noteq> Some True"
    by (simp add: user_message_def)
  show ?thesis
  proof (cases answer)
    case Rejected
    then show ?thesis
      using e u by (simp add: sendMessage_messages)
  next
    case (Resolved res)
    show ?thesis
    proof (cases "body res")
      case None
      then show ?thesis
        using e u Resolved by (simp add: sendMessage_messages)
    next
      case (Some b)
      obtain m where m: "role m = ''assistant''" "isStreaming m = Some False"
        "messages (stream_response h b (s\<lparr>messages := messages s @ [?u]\<rparr>)) =
           (messages s @ [?u]) @ (case ending b of Closed \<Rightarrow> [m] | Broken \<Rightarrow> [m, error_message])"
        using stream_response_messages [of h b "s\<lparr>messages := messages s @ [?u]\<rparr>"]
        by auto
      show ?thesis
      proof (cases "ending b")
        case Closed
        then show ?thesis
          using e u m Resolved Some by (simp add: sendMessage_messages)
      next
        case Broken
        then show ?thesis
          using e u m Resolved Some by (simp add: sendMessage_messages)
      qed
    qed
  qed
qed

lemma chunk_lines_DONE: \<open>chunk_lines ''data: [DONE]\<newline>'' = [''data: [DONE]'']\<close>
  by (simp add: chunk_lines_def trim_def is_space_def)

lemma chunk_lines_token:
  \<open>chunk_lines ''data: {"type":"token","content":"4"}\<newline>'' =
     [''data: {"type":"token","content":"4"}'']\<close>
  by (simp add: chunk_lines_def trim_def is_space_def)

lemma chunk_lines_done:
  \<open>chunk_lines ''data: {"type":"done"}\<newline>\<newline>'' = [''data: {"type":"done"}'']\<close>
  by (simp add: chunk_lines_def trim_def is_space_def)

lemma decode_sample_token:
  \<open>decode_payload sample_host ''{"type":"token","content":"4"}'' st =
     Some (append_token ''4'' st)\<close>
  by (simp add: decode_payload_def sample_host_def sample_parse_def)

lemma decode_sample_done: \<open>decode_payload sample_host ''{"type":"done"}'' st = None\<close>
  by (simp add: decode_payload_def sample_host_def sample_parse_def)

lemma decode_sample_note:
  \<open>decode_payload sample_host ''{"type":"note","text":"hi"}'' st = Some st\<close>
  by (simp add: decode_payload_def sample_host_def sample_parse_def)

lemma process_DONE: \<open>process_lines sample_host [''data: [DONE]''] st = st\<close>
  by simp

lemma process_token:
  \<open>process_lines sample_host [''data: {"type":"token","content":"4"}''] st =
     flush (append_token ''4'' st)\<close>
  by (simp add: decode_sample_token)

lemma process_done: \<open>process_lines sample_host [''data: {"type":"done"}''] st = st\<close>
  by (simp add: decode_sample_done)

lemma trim_question: "trim ''2+2?'' = ''2+2?''"
  by (simp add: trim_def is_space_def)

text \<open>
  Claim C1 as stated fails when a read of the stream fails: the send appends the
  placeholder and the error message, two assistant messages.
\<close>

theorem failed_stream_appends_two_assistant_messages:
  "messages (sendMessage sample_host ''2026-01-01T00:00:00Z'' broken_at_once ''2+2?'' [] empty_state) =
     [user_message ''2+2?'' [],
      placeholder\<lparr>isStreaming := Some False, status := Some JNull\<rparr>, error_message] \<and>
   length (filter (\<lambda>m. role m = ''assistant'')
     (drop (length (messages empty_state))
        (messages (sendMessage sample_host ''2026-01-01T00:00:00Z'' broken_at_once ''2+2?'' []
           empty_state)))) = 2"
  by (simp add: sendMessage_messages broken_at_once_def trim_question stream_response_def
      stream_progress_def append_placeholder_def Let_def empty_state_def fail_send_def finish_streaming_def console_error_def
      placeholder_def error_message_def user_message_def update_last_def)

text \<open>
  Claim C1, amended, at a send that succeeds: one user message and one assistant message.
\<close>

theorem sendMessage_appended_messages_witness:
  "\<exists>tail. messages (sendMessage sample_host ''2026-01-01T00:00:00Z'' two_plus_two ''2+2?'' []
              empty_state) =
            messages empty_state @ user_message ''2+2?'' [] # tail \<and>
          length tail = 1 \<and> isStreaming (last tail) = Some False"
  using sendMessage_appended_messages
          [of sample_host "''2026-01-01T00:00:00Z''" two_plus_two "''2+2?''" "[]" empty_state]
  by (auto simp: two_plus_two_def answer_response_def answer_body_def trim_question)

text \<open>The scenario of a first question, with the token and the end in two chunks.\<close>

lemma two_plus_two_scenario:
  "messages (sendMessage sample_host ''2026-01-01T00:00:00Z'' two_plus_two ''2+2?'' [] empty_state) =
     [user_message ''2+2?'' [],
      placeholder\<lparr>content := ''4'', isStreaming := Some False, status := Some JNull\<rparr>]"
  by (simp add: sendMessage_messages two_plus_two_def answer_response_def answer_body_def trim_question
      stream_response_def stream_progress_def append_placeholder_def
      Let_def empty_state_def finish_streaming_def chunk_lines_token
      chunk_lines_done decode_sample_token decode_sample_done flush_def append_token_def
      update_last_def)

section \<open>Sentinels and payloads of the stream\<close>

text \<open>
  Claim C2, at a stream in which a token record arrives in the chunk after the sentinel
  (the literal \<open>[DONE]\<close>, or the record of type \<open>done\<close>): the sentinel ends the loop
  over the lines of its chunk only, the next chunk is read, and its token is appended and
  shown.
\<close>

theorem records_after_sentinel_are_processed:
  "messages (sendMessage sample_host ''2026-01-01T00:00:00Z'' done_then_token ''2+2?'' [] empty_state) =
     [user_message ''2+2?'' [],
      placeholder\<lparr>content := ''4'', isStreaming := Some False, status := Some JNull\<rparr>] \<and>
   messages (sendMessage sample_host ''2026-01-01T00:00:00Z'' json_done_then_token ''2+2?'' []
       empty_state) =
     [user_message ''2+2?'' [],
      placeholder\<lparr>content := ''4'', isStreaming := Some False, status := Some JNull\<rparr>]"
  by (simp add: sendMessage_messages done_then_token_def json_done_then_token_def trim_question
      stream_response_def stream_progress_def append_placeholder_def
      Let_def empty_state_def finish_streaming_def chunk_lines_DONE
      chunk_lines_token chunk_lines_done decode_sample_token decode_sample_done flush_def
      append_token_def update_last_def)

text \<open>
  Claim C7, amended. A payload that is not JSON is appended to the accumulated text as
  it is (and, unless it is the sentinel, the record flushes it when it is the last line of
  its chunk); a payload that is a JSON string is appended decoded. A payload that is JSON
  of any other unrecognized shape (an object with another or no type, an array, a number,
  a boolean, \<open>null\<close>) is ignored: nothing is appended. The decoder has no failing
  branch, and it stops the loop exactly for the record of type \<open>done\<close>.
\<close>

theorem decode_payload_fallback:
  "(JSON_parse h data = None \<longrightarrow>
      decode_payload h data st = Some (append_token data st) \<and>
      (data \<noteq> ''[DONE]'' \<longrightarrow>
         process_lines h [''data: '' @ data] st = flush (append_token data st))) \<and>
   (\<forall>t. JSON_parse h data = Some (JString t) \<longrightarrow>
      decode_payload h data st = Some (append_token t st)) \<and>
   (\<forall>v. JSON_parse h data = Some v \<and> \<not> recognized v \<and> (\<forall>t. v \<noteq> JString t) \<longrightarrow>
      decode_payload h data st = Some st) \<and>
   (decode_payload h data st = None \<longleftrightarrow>
      (\<exists>kvs. JSON_parse h data = Some (JObject kvs) \<and>
             map_of kvs ''type'' = Some (JString ''done'')))"
proof -
  have raw: "decode_payload h data st = Some (append_token data st)"
    if "JSON_parse h data = None"
    using that by (simp add: decode_payload_def)
  have line: "process_lines h [''data: '' @ data] st = flush (append_token data st)"
    if "JSON_parse h data = None" and "data \<noteq> ''[DONE]''"
    using that raw by simp
  have str: "decode_payload h data st = Some (append_token t st)"
    if "JSON_parse h data = Some (JString t)" for t
    using that by (simp add: decode_payload_def)
  have other: "decode_payload h data st = Some st"
    if "JSON_parse h data = Some v" and "\<not> recognized v" and "\<forall>t. v \<noteq> JString t" for v
    using that by (cases v) (auto simp: decode_payload_def)
  have stop: "decode_payload h data st = None \<longleftrightarrow>
      (\<exists>kvs. JSON_parse h data = Some (JObject kvs) \<and>
             map_of kvs ''type'' = Some (JString ''done''))"
    by (auto simp: decode_payload_def Let_def split: option.splits json.splits)
  show ?thesis
    using raw line str other stop by blast
qed

text \<open>
  Claim C7 as stated fails for a JSON payload of an unrecognized shape: the record is
  dropped and the accumulated text stays empty.
\<close>

theorem unrecognized_object_is_dropped:
  \<open>JSON_parse sample_host ''{"type":"note","text":"hi"}'' =
     Some (JObject [(''type'', JString ''note''), (''text'', JString ''hi'')]) \<and>
   \<not> recognized (JObject [(''type'', JString ''note''), (''text'', JString ''hi'')]) \<and>
   process_lines sample_host [''data: {"type":"note","text":"hi"}''] st0 = flush st0 \<and>
   assistantMessage (process_lines sample_host [''data: {"type":"note","text":"hi"}''] st0) = []\<close>
  by (simp add: sample_host_def sample_parse_def decode_payload_def st0_def flush_def)

text \<open>
  Claim C7, amended, at a record whose payload is plain text.
\<close>

theorem decode_payload_fallback_witness:
  "JSON_parse sample_host ''Hello'' = None \<and> ''Hello'' \<noteq> ''[DONE]'' \<and>
   process_lines sample_host [''data: Hello''] st0 = flush (append_token ''Hello'' st0) \<and>
   assistantMessage (process_lines sample_host [''data: Hello''] st0) = ''Hello''"
proof -
  have p: "JSON_parse sample_host ''Hello'' = None"
    by (simp add: sample_host_def sample_parse_def)
  have n: "''Hello'' \<noteq> ''[DONE]''"
    by simp
  have "process_lines sample_host [''data: '' @ ''Hello''] st0 = flush (append_token ''Hello'' st0)"
    using decode_payload_fallback [of sample_host "''Hello''" st0] p n by blast
  then have l: "process_lines sample_host [''data: Hello''] st0 = flush (append_token ''Hello'' st0)"
    by (simp only: append.simps)
  show ?thesis
    unfolding l using p by (simp add: flush_def append_token_def st0_def)
qed

section \<open>Streaming flags of a buffer\<close>

lemma isStreaming_parse_message_inner:
  "Suc idx \<noteq> n \<Longrightarrow> isStreaming (parse_message h now n idx m) = Some (pending m)"
  by (auto simp: parse_message_def Let_def pending_def full_text_def)

lemma parseMessagesData_inner_streaming:
  assumes "list_all (\<lambda>m. \<not> pending m) (butlast data)"
  shows "streaming_only_last (parseMessagesData h now data)"
  unfolding streaming_only_last_def list_all_length
proof (intro allI impI)
  fix i
  assume "i < length (butlast (parseMessagesData h now data))"
  then have i: "i < length data - 1"
    by simp
  then have il: "i < length data" and ib: "i < length (butlast data)" and ni: "Suc i \<noteq> length data"
    by simp_all
  have "\<not> pending (butlast data ! i)"
    using assms ib by (simp add: list_all_length)
  then have np: "\<not> pending (data ! i)"
    using ib by (simp add: nth_butlast)
  have "butlast (parseMessagesData h now data) ! i = parse_message h now (length data) i (data ! i)"
    using i il by (simp add: nth_butlast nth_parseMessagesData)
  then show "isStreaming (butlast (parseMessagesData h now data) ! i) \<noteq> Some True"
    using np by (simp add: isStreaming_parse_message_inner [OF ni])
qed

lemma none_streaming_simps [simp]:
  "none_streaming [] = True"
  "none_streaming (m # ms) = (isStreaming m \<noteq> Some True \<and> none_streaming ms)"
  "none_streaming (xs @ ys) = (none_streaming xs \<and> none_streaming ys)"
  by (simp_all add: none_streaming_def)

lemma isStreaming_built [simp]:
  "isStreaming (user_message u p) = None"
  "isStreaming error_message = None"
  "isStreaming placeholder = Some True"
  by (simp_all add: user_message_def error_message_def placeholder_def)

lemma streaming_only_last_snoc [simp]:
  "streaming_only_last (ms @ [m]) = none_streaming ms"
  "streaming_only_last (ms @ [x, m]) = none_streaming (ms @ [x])"
  by (simp_all add: streaming_only_last_def none_streaming_def butlast_append)

lemma none_streaming_imp_only_last: "none_streaming ms \<Longrightarrow> streaming_only_last ms"
  unfolding none_streaming_def streaming_only_last_def list_all_iff
  by (auto dest: in_set_butlastD)

lemma stream_progress_start:
  "messages (stream_progress h b 0 s) = messages s @ [placeholder]"
  by (simp add: stream_progress_def append_placeholder_def)

lemma sendMessage_none_streaming:
  assumes "none_streaming (messages s)"
  shows "none_streaming (messages (sendMessage h now answer text imgs s))"
proof -
  let ?t = "s\<lparr>messages := messages s @ [user_message (trim text) (map preview imgs)]\<rparr>"
  have sr: "none_streaming (messages (stream_response h b ?t))" for b
  proof -
    obtain m where "isStreaming m = Some False"
      "messages (stream_response h b ?t) =
         messages ?t @ (case ending b of Closed \<Rightarrow> [m] | Broken \<Rightarrow> [m, error_message])"
      using stream_response_messages [of h b ?t] by blast
    then show ?thesis
      using assms by (cases "ending b") simp_all
  qed
  show ?thesis
    unfolding sendMessage_messages
    using assms sr by (simp split: fetched.splits option.splits)
qed

text \<open>
  Claim C3 as stated fails. For a load: an assistant message without content gets
  \<open>isStreaming = true\<close> at every index, so a message before the last one can stream.
  For a send: when the last message of the buffer is streaming (here the loaded answer
  that is still generated), the buffer after the placeholder is appended has two
  streaming messages, one of them before the last.
\<close>

theorem earlier_message_can_stream:
  "\<not> streaming_only_last (parseMessagesData sample_host 1000 pending_then_user) \<and>
   isStreaming (parseMessagesData sample_host 1000 pending_then_user ! 0) = Some True \<and>
   \<not> none_streaming (messages waiting_state) \<and>
   \<not> streaming_only_last
       (messages (stream_progress sample_host answer_body 0
          (accept_session ''2026-01-01T00:00:00Z'' answer_response (trim ''2+2?'')
             (no_conversation waiting_state) (begin_send ''2+2?'' [] waiting_state))))"
proof -
  have w: "messages waiting_state =
      [\<lparr> role = ''user'', content = ''2+2?'', fullContent = None, images = Some [],
         isStreaming = Some False, isSimulating = None, status = None \<rparr>,
       \<lparr> role = ''assistant'', content = [], fullContent = None, images = Some [],
         isStreaming = Some True, isSimulating = None, status = None \<rparr>]"
    by (simp add: waiting_state_def empty_state_def parseMessagesData_def pending_answer_def
        parse_message_def parse_images_def enumerate_eq_zip Let_def)
  have l: "\<not> streaming_only_last (parseMessagesData sample_host 1000 pending_then_user) \<and>
     isStreaming (parseMessagesData sample_host 1000 pending_then_user ! 0) = Some True"
    by (simp add: streaming_only_last_def parseMessagesData_def pending_then_user_def
        parse_message_def parse_images_def enumerate_eq_zip Let_def)
  show ?thesis
    using l by (simp add: stream_progress_start w streaming_only_last_def none_streaming_def)
qed

text \<open>
  Claim C3, amended. In a buffer that \<open>parseMessagesData\<close> produces from a list in
  which no message before the last is an assistant message without content, at most one
  message has \<open>isStreaming = true\<close>, and it is the last one. When no message of the
  buffer is streaming at the start of a send, the same holds for every buffer of the
  send: after the user message is appended, after the placeholder is appended (which is
  then the one streaming message), after every chunk that the read loop has processed,
  and when the send has settled (then no message is streaming).
\<close>

theorem streaming_only_last_when_settled:
  "(list_all (\<lambda>m. \<not> pending m) (butlast data) \<longrightarrow>
      streaming_only_last (parseMessagesData h now data)) \<and>
   (none_streaming (messages s) \<longrightarrow>
      streaming_only_last (messages (begin_send text imgs s)) \<and>
      (\<forall>res b n.
         streaming_only_last
           (messages (stream_progress h b n
              (accept_session now_iso res (trim text) (no_conversation s)
                 (begin_send text imgs s)))) \<and>
         isStreaming (last
           (messages (stream_progress h b 0
              (accept_session now_iso res (trim text) (no_conversation s)
                 (begin_send text imgs s))))) = Some True) \<and>
      streaming_only_last (messages (sendMessage h now_iso answer text imgs s)) \<and>
      none_streaming (messages (sendMessage h now_iso answer text imgs s)))"
proof -
  have send: "streaming_only_last (messages (begin_send text imgs s)) \<and>
      (\<forall>res b n.
         streaming_only_last
           (messages (stream_progress h b n
              (accept_session now_iso res (trim text) (no_conversation s)
                 (begin_send text imgs s)))) \<and>
         isStreaming (last
           (messages (stream_progress h b 0
              (accept_session now_iso res (trim text) (no_conversation s)
                 (begin_send text imgs s))))) = Some True) \<and>
      streaming_only_last (messages (sendMessage h now_iso answer text imgs s)) \<and>
      none_streaming (messages (sendMessage h now_iso answer text imgs s))"
    if ms: "none_streaming (messages s)"
  proof -
    have a: "streaming_only_last (messages (begin_send text imgs s))"
      using ms by simp
    have b: "streaming_only_last (messages (stream_progress h b n
              (accept_session now_iso res (trim text) (no_conversation s)
                 (begin_send text imgs s))))" for res b n
    proof -
      obtain m where "messages (stream_progress h b n
              (accept_session now_iso res (trim text) (no_conversation s)
                 (begin_send text imgs s))) =
          messages (accept_session now_iso res (trim text) (no_conversation s)
                 (begin_send text imgs s)) @ [m]"
        using stream_progress_messages by blast
      then show ?thesis
        using ms by simp
    qed
    have c: "isStreaming (last (messages (stream_progress h b 0
              (accept_session now_iso res (trim text) (no_conversation s)
                 (begin_send text imgs s))))) = Some True" for res b
      by (simp add: stream_progress_start)
    have d: "none_streaming (messages (sendMessage h now_iso answer text imgs s))"
      using ms by (rule sendMessage_none_streaming)
    show ?thesis
      using a b c d none_streaming_imp_only_last [OF d] by blast
  qed
  show ?thesis
    using send parseMessagesData_inner_streaming by blast
qed

lemma question_and_answer_loaded:
  "list_all (\<lambda>m. \<not> pending m) (butlast question_and_answer)"
  "isStreaming (last (parseMessagesData sample_host 2000 question_and_answer)) = Some True"
  "length (parseMessagesData sample_host 2000 question_and_answer) = 2"
  by (simp_all add: question_and_answer_def pending_def full_text_def parseMessagesData_def
      parse_message_def parse_images_def enumerate_eq_zip Let_def TYPING_SPEED_def)

lemma settled_state_quiet: "none_streaming (messages settled_state)"
  by (simp add: settled_state_def empty_state_def none_streaming_def user_message_def
      placeholder_def)

lemma settled_state_progress:
  "messages (stream_progress sample_host answer_body 1
      (accept_session ''2026-01-01T00:00:00Z'' answer_response (trim ''3+3?'')
         (no_conversation settled_state) (begin_send ''3+3?'' [] settled_state))) =
     messages settled_state @ [user_message ''3+3?'' [], placeholder\<lparr>content := ''4''\<rparr>]"
proof -
  have t: "trim ''3+3?'' = ''3+3?''"
    by (simp add: trim_def is_space_def)
  show ?thesis
    by (simp add: stream_progress_def append_placeholder_def answer_body_def t
        chunk_lines_token decode_sample_token flush_def append_token_def update_last_def
        butlast_append)
qed

text \<open>
  Claim C3, amended, at the load of a question with its long answer, whose second
  message is simulating, and at a second send in a settled conversation, after the first
  chunk of the answer.
\<close>

theorem streaming_only_last_when_settled_witness:
  "list_all (\<lambda>m. \<not> pending m) (butlast question_and_answer) \<and>
   length (parseMessagesData sample_host 2000 question_and_answer) = 2 \<and>
   isStreaming (last (parseMessagesData sample_host 2000 question_and_answer)) = Some True \<and>
   streaming_only_last (parseMessagesData sample_host 2000 question_and_answer) \<and>
   none_streaming (messages settled_state) \<and>
   messages (stream_progress sample_host answer_body 1
      (accept_session ''2026-01-01T00:00:00Z'' answer_response (trim ''3+3?'')
         (no_conversation settled_state) (begin_send ''3+3?'' [] settled_state))) =
     messages settled_state @ [user_message ''3+3?'' [], placeholder\<lparr>content := ''4''\<rparr>] \<and>
   streaming_only_last
     (messages (stream_progress sample_host answer_body 1
        (accept_session ''2026-01-01T00:00:00Z'' answer_response (trim ''3+3?'')
           (no_conversation settled_state) (begin_send ''3+3?'' [] settled_state)))) \<and>
   streaming_only_last
     (messages (sendMessage sample_host ''2026-01-01T00:00:00Z'' two_plus_two ''3+3?'' []
        settled_state))"
proof -
  note t = streaming_only_last_when_settled
             [of question_and_answer sample_host 2000 settled_state "''3+3?''" "[]"
                 "''2026-01-01T00:00:00Z''" two_plus_two]
  note load = t [THEN conjunct1, THEN mp, OF question_and_answer_loaded(1)]
  note send = t [THEN conjunct2, THEN mp, OF settled_state_quiet]
  have progress: "streaming_only_last
     (messages (stream_progress sample_host answer_body 1
        (accept_session ''2026-01-01T00:00:00Z'' answer_response (trim ''3+3?'')
           (no_conversation settled_state) (begin_send ''3+3?'' [] settled_state))))"
    using send [THEN conjunct2, THEN conjunct1, rule_format, THEN conjunct1] .
  note final = send [THEN conjunct2, THEN conjunct2, THEN conjunct1]
  show ?thesis
    by (intro conjI question_and_answer_loaded settled_state_quiet settled_state_progress
        load progress final)
qed

end
